theory Spec2Isabelle
  imports Main "HOL-Library.AList" "HOL-Library.Sublist"
begin

section \<open>Values exchanged with the object store and the file system\<close>

text \<open>
  The repository wraps the AWS S3 client and Node's \<^verbatim>\<open>fs\<close> module.  The source comes in
  three versions of the class \<^verbatim>\<open>DkS3\<close>, stored one after the other in
  \<^verbatim>\<open>src/unnamed/part_000\<close>: lines 1-204 (below: version 1), lines 205-401 (version 2)
  and lines 402-658 (version 3).  Methods keep their names; a suffix \<open>_v1\<close>, \<open>_v2\<close> or
  \<open>_v3\<close> tells the version where the versions differ.  A method whose body is the same in
  every version that has it is embedded once, without suffix.

  A file's contents and a request body are byte strings.  Everything that JavaScript can
  throw and that these methods can meet is an \<open>exn\<close>: \<^verbatim>\<open>new Error(msg)\<close>, an error of the
  file system with its code, or an error of the remote service with its code.
  Console output is not modelled.
\<close>

type_synonym buffer = string

datatype exn = Error string | SystemError string | AWSError string

record ListObjectsV2Request =
  Bucket :: string
  Prefix :: string

record Object =
  Key :: string

record ListObjectsV2Output =
  Contents :: "Object list option"
  IsTruncated :: "bool option"

record ObjectIdentifier =
  Key :: string

record Delete =
  Objects :: "ObjectIdentifier list"

record DeleteObjectsRequest =
  Bucket :: string
  Delete :: Delete

record DeleteObjectsOutput =
  Deleted :: "ObjectIdentifier list option"

record PutObjectRequest =
  Bucket :: string
  Key :: string
  Body :: buffer
  ACL :: "string option"

record PutObjectOutput =
  ETag :: string

record SendData =
  Location :: string

record GetObjectRequest =
  Bucket :: string
  Key :: string

text \<open>
  The result shapes of \<^verbatim>\<open>model.ts\<close>.  Version 1 (\<^verbatim>\<open>src/src/model.ts\<close>) has the fields
  \<^verbatim>\<open>result\<close> and \<^verbatim>\<open>error\<close>; version 3 (\<^verbatim>\<open>src/unnamed/part_001\<close>) has \<^verbatim>\<open>data\<close> and \<^verbatim>\<open>err\<close> in
  each of \<^verbatim>\<open>ListObjectResult\<close>, \<^verbatim>\<open>UploadFileResult\<close> and \<^verbatim>\<open>PutFileResult\<close>.  \<open>None\<close> is
  \<^verbatim>\<open>null\<close>.
\<close>

record UploadFileResult_v1 =
  result :: "PutObjectOutput option"
  error :: "exn option"

record 'a Result_v3 =
  data :: "'a option"
  err :: "exn option"

type_synonym UploadFileResult = "SendData Result_v3"
type_synonym PutFileResult = "PutObjectOutput Result_v3"

section \<open>The environment\<close>

text \<open>
  The S3 client, \<^verbatim>\<open>fs\<close>, \<^verbatim>\<open>path\<close> and the package \<^verbatim>\<open>@darkcompet/nodejs-core\<close>
  (\<^verbatim>\<open>DkUnixShell\<close>, \<^verbatim>\<open>DkFiles\<close>) are not part of the repository.  They are parameters:
  a record of functions over a state \<open>'s\<close> of the remote service and a state \<open>'f\<close> of the
  local file system.  A call that can reject returns \<open>Inl\<close> of what it throws.
  \<open>createWriteStream p bs\<close> opens \<open>p\<close> for writing and stores the bytes \<open>bs\<close> piped into it.
\<close>

record ('s, 'f) env =
  listObjectsV2 :: "ListObjectsV2Request \<Rightarrow> 's \<Rightarrow> (exn + ListObjectsV2Output) \<times> 's"
  deleteObjects :: "DeleteObjectsRequest \<Rightarrow> 's \<Rightarrow> (exn + DeleteObjectsOutput) \<times> 's"
  putObject :: "PutObjectRequest \<Rightarrow> 's \<Rightarrow> (exn + PutObjectOutput) \<times> 's"
  upload :: "PutObjectRequest \<Rightarrow> 's \<Rightarrow> (exn + SendData) \<times> 's"
  getObject :: "GetObjectRequest \<Rightarrow> 's \<Rightarrow> (exn + buffer) \<times> 's"
  readdir :: "string \<Rightarrow> 'f \<Rightarrow> exn + string list"
  readFile :: "string \<Rightarrow> 'f \<Rightarrow> exn + buffer"
  createWriteStream :: "string \<Rightarrow> buffer \<Rightarrow> 'f \<Rightarrow> exn + 'f"
  FileExisted :: "string \<Rightarrow> 'f \<Rightarrow> exn + bool"
  DirectoryExisted :: "string \<Rightarrow> 'f \<Rightarrow> exn + bool"
  MkDirsOrThrowAsync :: "string \<Rightarrow> 'f \<Rightarrow> exn + 'f"
  path_join :: "string \<Rightarrow> string \<Rightarrow> string"

text \<open>
  A completion callback handed to \<^verbatim>\<open>putObject(params, callback)\<close> is either the one the
  caller supplied or the progress logger that \<^verbatim>\<open>UploadFolder\<close> of version 2 builds for a
  file name.
\<close>

datatype 'c callback = eachFileCallback 'c | progressCallback string

text \<open>
  The requests sent to the service, in order.  An awaited request is logged with its
  response; a request sent with a callback is logged when it is sent, with the callback.
\<close>

datatype 'c s3_call =
    ListObjectsV2Call ListObjectsV2Request "exn + ListObjectsV2Output"
  | DeleteObjectsCall DeleteObjectsRequest "exn + DeleteObjectsOutput"
  | PutObjectCall PutObjectRequest "exn + PutObjectOutput"
  | UploadCall PutObjectRequest "exn + SendData"
  | GetObjectCall GetObjectRequest "exn + buffer"
  | PutObjectSent PutObjectRequest "'c callback"

text \<open>
  The world a method runs in: the remote service, the local disk, the log of requests and
  the errors raised where no caller can catch them (in a detached callback or on a stream).
  What the runtime does with such an error is not modelled; the run goes on.
\<close>

record ('s, 'f, 'c) world =
  remote :: 's
  disk :: 'f
  calls :: "'c s3_call list"
  uncaught :: "exn list"

definition s3_listObjectsV2 ::
  "('s, 'f) env \<Rightarrow> ListObjectsV2Request \<Rightarrow> ('s, 'f, 'c) world \<Rightarrow>
     (exn + ListObjectsV2Output) \<times> ('s, 'f, 'c) world" where
  "s3_listObjectsV2 env req w =
     (case listObjectsV2 env req (remote w) of
        (r, s) \<Rightarrow> (r, w\<lparr>remote := s, calls := calls w @ [ListObjectsV2Call req r]\<rparr>))"

definition s3_deleteObjects ::
  "('s, 'f) env \<Rightarrow> DeleteObjectsRequest \<Rightarrow> ('s, 'f, 'c) world \<Rightarrow>
     (exn + DeleteObjectsOutput) \<times> ('s, 'f, 'c) world" where
  "s3_deleteObjects env req w =
     (case deleteObjects env req (remote w) of
        (r, s) \<Rightarrow> (r, w\<lparr>remote := s, calls := calls w @ [DeleteObjectsCall req r]\<rparr>))"

definition s3_putObject ::
  "('s, 'f) env \<Rightarrow> PutObjectRequest \<Rightarrow> ('s, 'f, 'c) world \<Rightarrow>
     (exn + PutObjectOutput) \<times> ('s, 'f, 'c) world" where
  "s3_putObject env req w =
     (case putObject env req (remote w) of
        (r, s) \<Rightarrow> (r, w\<lparr>remote := s, calls := calls w @ [PutObjectCall req r]\<rparr>))"

definition s3_upload ::
  "('s, 'f) env \<Rightarrow> PutObjectRequest \<Rightarrow> ('s, 'f, 'c) world \<Rightarrow>
     (exn + SendData) \<times> ('s, 'f, 'c) world" where
  "s3_upload env req w =
     (case upload env req (remote w) of
        (r, s) \<Rightarrow> (r, w\<lparr>remote := s, calls := calls w @ [UploadCall req r]\<rparr>))"

definition s3_getObject ::
  "('s, 'f) env \<Rightarrow> GetObjectRequest \<Rightarrow> ('s, 'f, 'c) world \<Rightarrow>
     (exn + buffer) \<times> ('s, 'f, 'c) world" where
  "s3_getObject env req w =
     (case getObject env req (remote w) of
        (r, s) \<Rightarrow> (r, w\<lparr>remote := s, calls := calls w @ [GetObjectCall req r]\<rparr>))"

definition s3_putObject_callback ::
  "PutObjectRequest \<Rightarrow> 'c callback \<Rightarrow> ('s, 'f, 'c) world \<Rightarrow> ('s, 'f, 'c) world" where
  "s3_putObject_callback req cb w = w\<lparr>calls := calls w @ [PutObjectSent req cb]\<rparr>"

text \<open>JavaScript's \<^verbatim>\<open>if (ACL)\<close> on a \<^verbatim>\<open>string | null\<close>: null and the empty string are falsy.\<close>

definition truthy :: "string option \<Rightarrow> bool" where
  "truthy v = (case v of None \<Rightarrow> False | Some s \<Rightarrow> s \<noteq> [])"

text \<open>\<^verbatim>\<open>xs?.forEach(f)\<close> visits nothing when \<^verbatim>\<open>xs\<close> is undefined.\<close>

definition optional_list :: "'a list option \<Rightarrow> 'a list" where
  "optional_list xs = (case xs of None \<Rightarrow> [] | Some ys \<Rightarrow> ys)"

section \<open>Listing\<close>




section \<open>Uploading one file\<close>

text \<open>
  The body of the \<^verbatim>\<open>try\<close> block of \<^verbatim>\<open>UploadFileAsync\<close>, version 1 (lines 59-76): \<open>Inl\<close> is
  what the block throws, \<open>Inr\<close> what it returns.
\<close>

definition UploadFileAsync_v1_try ::
  "('s, 'f) env \<Rightarrow> string \<Rightarrow> string \<Rightarrow> string \<Rightarrow> ('s, 'f, 'c) world \<Rightarrow>
     (exn + UploadFileResult_v1) \<times> ('s, 'f, 'c) world" where
  "UploadFileAsync_v1_try env bucketName clientFilePath s3RelativeFilePath w =
     (case FileExisted env clientFilePath (disk w) of
        Inl e \<Rightarrow> (Inl e, w)
      | Inr existed \<Rightarrow>
          if \<not> existed then (Inl (Error ''File not exist''), w)
          else
            (case readFile env clientFilePath (disk w) of
               Inl e \<Rightarrow> (Inl e, w)
             | Inr fileBuffer \<Rightarrow>
                 (case s3_putObject env
                         \<lparr>PutObjectRequest.Bucket = bucketName, Key = s3RelativeFilePath,
                          Body = fileBuffer, ACL = None\<rparr> w of
                    (Inl e, w1) \<Rightarrow> (Inl e, w1)
                  | (Inr output, w1) \<Rightarrow> (Inr \<lparr>result = Some output, error = None\<rparr>, w1))))"

text \<open>\<^verbatim>\<open>UploadFileAsync\<close>, version 1 (lines 54-83): the block and its \<^verbatim>\<open>catch\<close>.\<close>

definition UploadFileAsync_v1 ::
  "('s, 'f) env \<Rightarrow> string \<Rightarrow> string \<Rightarrow> string \<Rightarrow> ('s, 'f, 'c) world \<Rightarrow>
     (exn + UploadFileResult_v1) \<times> ('s, 'f, 'c) world" where
  "UploadFileAsync_v1 env bucketName clientFilePath s3RelativeFilePath w =
     (case UploadFileAsync_v1_try env bucketName clientFilePath s3RelativeFilePath w of
        (Inr r, w1) \<Rightarrow> (Inr r, w1)
      | (Inl e, w1) \<Rightarrow> (Inr \<lparr>result = None, error = Some e\<rparr>, w1))"

text \<open>
  The parameters built by version 3 (lines 477-485 and 519-527): the \<^verbatim>\<open>ACL\<close> field is set
  only when the argument is truthy.
\<close>

definition uploadParams ::
  "string \<Rightarrow> string \<Rightarrow> buffer \<Rightarrow> string option \<Rightarrow> PutObjectRequest" where
  "uploadParams bucketName s3RelativeFilePath fileBuffer acl =
     \<lparr>PutObjectRequest.Bucket = bucketName, Key = s3RelativeFilePath, Body = fileBuffer,
      ACL = (if truthy acl then acl else None)\<rparr>"

text \<open>\<^verbatim>\<open>UploadFileAsync\<close>, version 3 (lines 464-495), sends with the managed \<^verbatim>\<open>upload\<close>.\<close>

definition UploadFileAsync_v3_try ::
  "('s, 'f) env \<Rightarrow> string \<Rightarrow> string \<Rightarrow> string \<Rightarrow> string option \<Rightarrow> ('s, 'f, 'c) world \<Rightarrow>
     (exn + UploadFileResult) \<times> ('s, 'f, 'c) world" where
  "UploadFileAsync_v3_try env bucketName clientFilePath s3RelativeFilePath acl w =
     (case FileExisted env clientFilePath (disk w) of
        Inl e \<Rightarrow> (Inl e, w)
      | Inr existed \<Rightarrow>
          if \<not> existed then (Inl (Error ''File not exist''), w)
          else
            (case readFile env clientFilePath (disk w) of
               Inl e \<Rightarrow> (Inl e, w)
             | Inr fileBuffer \<Rightarrow>
                 (case s3_upload env
                         (uploadParams bucketName s3RelativeFilePath fileBuffer acl) w of
                    (Inl e, w1) \<Rightarrow> (Inl e, w1)
                  | (Inr sent, w1) \<Rightarrow> (Inr \<lparr>data = Some sent, err = None\<rparr>, w1))))"

definition UploadFileAsync_v3 ::
  "('s, 'f) env \<Rightarrow> string \<Rightarrow> string \<Rightarrow> string \<Rightarrow> string option \<Rightarrow> ('s, 'f, 'c) world \<Rightarrow>
     (exn + UploadFileResult) \<times> ('s, 'f, 'c) world" where
  "UploadFileAsync_v3 env bucketName clientFilePath s3RelativeFilePath acl w =
     (case UploadFileAsync_v3_try env bucketName clientFilePath s3RelativeFilePath acl w of
        (Inr r, w1) \<Rightarrow> (Inr r, w1)
      | (Inl e, w1) \<Rightarrow> (Inr \<lparr>data = None, err = Some e\<rparr>, w1))"

text \<open>\<^verbatim>\<open>PutFileAsync\<close>, version 3 (lines 506-537), sends with \<^verbatim>\<open>putObject\<close>.\<close>

definition PutFileAsync_try ::
  "('s, 'f) env \<Rightarrow> string \<Rightarrow> string \<Rightarrow> string \<Rightarrow> string option \<Rightarrow> ('s, 'f, 'c) world \<Rightarrow>
     (exn + PutFileResult) \<times> ('s, 'f, 'c) world" where
  "PutFileAsync_try env bucketName clientFilePath s3RelativeFilePath acl w =
     (case FileExisted env clientFilePath (disk w) of
        Inl e \<Rightarrow> (Inl e, w)
      | Inr existed \<Rightarrow>
          if \<not> existed then (Inl (Error ''File not exist''), w)
          else
            (case readFile env clientFilePath (disk w) of
               Inl e \<Rightarrow> (Inl e, w)
             | Inr fileBuffer \<Rightarrow>
                 (case s3_putObject env
                         (uploadParams bucketName s3RelativeFilePath fileBuffer acl) w of
                    (Inl e, w1) \<Rightarrow> (Inl e, w1)
                  | (Inr output, w1) \<Rightarrow> (Inr \<lparr>data = Some output, err = None\<rparr>, w1))))"

definition PutFileAsync ::
  "('s, 'f) env \<Rightarrow> string \<Rightarrow> string \<Rightarrow> string \<Rightarrow> string option \<Rightarrow> ('s, 'f, 'c) world \<Rightarrow>
     (exn + PutFileResult) \<times> ('s, 'f, 'c) world" where
  "PutFileAsync env bucketName clientFilePath s3RelativeFilePath acl w =
     (case PutFileAsync_try env bucketName clientFilePath s3RelativeFilePath acl w of
        (Inr r, w1) \<Rightarrow> (Inr r, w1)
      | (Inl e, w1) \<Rightarrow> (Inr \<lparr>data = None, err = Some e\<rparr>, w1))"

section \<open>Uploading a folder\<close>

text \<open>
  The loop of \<^verbatim>\<open>UploadFolderAsync\<close> (version 1, lines 110-128) and of \<^verbatim>\<open>PutFolderAsync\<close>
  (version 3, lines 564-582) over the names that \<^verbatim>\<open>readdir\<close> returned.  A name that is a
  directory is skipped; any other is read and sent with the caller's callback, without
  waiting.  A rejected \<^verbatim>\<open>DirectoryExisted\<close> or \<^verbatim>\<open>readFile\<close> leaves the loop and the method.
\<close>

fun upload_each ::
  "('s, 'f) env \<Rightarrow> string \<Rightarrow> string \<Rightarrow> string \<Rightarrow> 'c \<Rightarrow> string list \<Rightarrow>
     ('s, 'f, 'c) world \<Rightarrow> (exn + unit) \<times> ('s, 'f, 'c) world" where
  "upload_each env bucketName fromLocalFolderPath toS3RelativeFolderPath cb [] w = (Inr (), w)"
| "upload_each env bucketName fromLocalFolderPath toS3RelativeFolderPath cb (fileName # rest) w =
     (let filePath = path_join env fromLocalFolderPath fileName in
      case DirectoryExisted env filePath (disk w) of
        Inl e \<Rightarrow> (Inl e, w)
      | Inr isDirectory \<Rightarrow>
          if isDirectory
          then upload_each env bucketName fromLocalFolderPath toS3RelativeFolderPath cb rest w
          else
            (case readFile env filePath (disk w) of
               Inl e \<Rightarrow> (Inl e, w)
             | Inr fileBuffer \<Rightarrow>
                 upload_each env bucketName fromLocalFolderPath toS3RelativeFolderPath cb rest
                   (s3_putObject_callback
                      \<lparr>PutObjectRequest.Bucket = bucketName,
                       Key = toS3RelativeFolderPath @ ''/'' @ fileName,
                       Body = fileBuffer, ACL = None\<rparr>
                      (eachFileCallback cb) w)))"

text \<open>
  \<^verbatim>\<open>UploadFolderAsync\<close>, version 1 (lines 92-129).  \<^verbatim>\<open>readdir\<close> is awaited outside any
  \<^verbatim>\<open>try\<close>.  The array it resolves to is never falsy, so the first test is on its length.
\<close>

definition UploadFolderAsync ::
  "('s, 'f) env \<Rightarrow> string \<Rightarrow> string \<Rightarrow> string \<Rightarrow> 'c \<Rightarrow> ('s, 'f, 'c) world \<Rightarrow>
     (exn + unit) \<times> ('s, 'f, 'c) world" where
  "UploadFolderAsync env bucketName fromLocalFolderPath toS3RelativeFolderPath cb w =
     (case readdir env fromLocalFolderPath (disk w) of
        Inl e \<Rightarrow> (Inl e, w)
      | Inr fileNames \<Rightarrow>
          if length fileNames = 0 then (Inr (), w)
          else if length fileNames > 10000 then (Inr (), w)
          else upload_each env bucketName fromLocalFolderPath toS3RelativeFolderPath cb
                 fileNames w)"

text \<open>\<^verbatim>\<open>PutFolderAsync\<close>, version 3 (lines 546-583): the same statements.\<close>

definition PutFolderAsync ::
  "('s, 'f) env \<Rightarrow> string \<Rightarrow> string \<Rightarrow> string \<Rightarrow> 'c \<Rightarrow> ('s, 'f, 'c) world \<Rightarrow>
     (exn + unit) \<times> ('s, 'f, 'c) world" where
  "PutFolderAsync env bucketName fromLocalFolderPath toS3RelativeFolderPath cb w =
     (case readdir env fromLocalFolderPath (disk w) of
        Inl e \<Rightarrow> (Inl e, w)
      | Inr fileNames \<Rightarrow>
          if length fileNames = 0 then (Inr (), w)
          else if length fileNames > 10000 then (Inr (), w)
          else upload_each env bucketName fromLocalFolderPath toS3RelativeFolderPath cb
                 fileNames w)"

text \<open>
  The loop of \<^verbatim>\<open>UploadFolder\<close>, version 2 (lines 275-323): it also skips a name that does
  not end in \<^verbatim>\<open>.png\<close>, and the callback is its own progress logger.  The counters
  \<^verbatim>\<open>progress\<close> and \<^verbatim>\<open>totalFileCount\<close> only feed the console.
\<close>

fun upload_each_v2 ::
  "('s, 'f) env \<Rightarrow> string \<Rightarrow> string \<Rightarrow> string \<Rightarrow> string list \<Rightarrow>
     ('s, 'f, 'c) world \<Rightarrow> (exn + unit) \<times> ('s, 'f, 'c) world" where
  "upload_each_v2 env buckerName fromLocalFolderPath toS3RelativeFolderPath [] w = (Inr (), w)"
| "upload_each_v2 env buckerName fromLocalFolderPath toS3RelativeFolderPath (fileName # rest) w =
     (let filePath = path_join env fromLocalFolderPath fileName in
      case DirectoryExisted env filePath (disk w) of
        Inl e \<Rightarrow> (Inl e, w)
      | Inr isDirectory \<Rightarrow>
          if isDirectory
          then upload_each_v2 env buckerName fromLocalFolderPath toS3RelativeFolderPath rest w
          else if \<not> suffix ''.png'' fileName
          then upload_each_v2 env buckerName fromLocalFolderPath toS3RelativeFolderPath rest w
          else
            (case readFile env filePath (disk w) of
               Inl e \<Rightarrow> (Inl e, w)
             | Inr fileBuffer \<Rightarrow>
                 upload_each_v2 env buckerName fromLocalFolderPath toS3RelativeFolderPath rest
                   (s3_putObject_callback
                      \<lparr>PutObjectRequest.Bucket = buckerName,
                       Key = toS3RelativeFolderPath @ ''/'' @ fileName,
                       Body = fileBuffer, ACL = None\<rparr>
                      (progressCallback fileName) w)))"

text \<open>\<^verbatim>\<open>UploadFolder\<close>, version 2 (lines 260-326); it returns \<^verbatim>\<open>{}\<close> on every path.\<close>

definition UploadFolder_v2 ::
  "('s, 'f) env \<Rightarrow> string \<Rightarrow> string \<Rightarrow> string \<Rightarrow> ('s, 'f, 'c) world \<Rightarrow>
     (exn + unit) \<times> ('s, 'f, 'c) world" where
  "UploadFolder_v2 env buckerName fromLocalFolderPath toS3RelativeFolderPath w =
     (case readdir env fromLocalFolderPath (disk w) of
        Inl e \<Rightarrow> (Inl e, w)
      | Inr fileNames \<Rightarrow>
          if length fileNames = 0 then (Inr (), w)
          else if length fileNames > 10000 then (Inr (), w)
          else upload_each_v2 env buckerName fromLocalFolderPath toS3RelativeFolderPath
                 fileNames w)"

text \<open>
  What the client does with the requests that were sent with a callback: each one completes
  at some later time, and its callback is then called once with the outcome.  \<open>settle\<close>
  completes the given requests in the order they were sent and returns the callbacks
  fired, each with the outcome it received.
\<close>

fun sent_requests :: "'c s3_call list \<Rightarrow> (PutObjectRequest \<times> 'c callback) list" where
  "sent_requests [] = []"
| "sent_requests (PutObjectSent req cb # cs) = (req, cb) # sent_requests cs"
| "sent_requests (c # cs) = sent_requests cs"

fun settle ::
  "('s, 'f) env \<Rightarrow> (PutObjectRequest \<times> 'c callback) list \<Rightarrow> 's \<Rightarrow>
     ('c callback \<times> (exn + PutObjectOutput)) list \<times> 's" where
  "settle env [] s = ([], s)"
| "settle env ((req, cb) # rest) s =
     (case putObject env req s of
        (r, s1) \<Rightarrow> (case settle env rest s1 of (fired, s2) \<Rightarrow> ((cb, r) # fired, s2)))"

text \<open>
  Vocabulary for stating what a folder upload sends.  An entry \<open>name\<close> of the folder
  counts as a directory when \<^verbatim>\<open>DirectoryExisted\<close> says so of its joined path; it is
  readable when that question is answered and, for a non-directory, \<^verbatim>\<open>readFile\<close> succeeds.
  \<open>expected_uploads\<close> is one request per given name: key \<^verbatim>\<open>prefix/name\<close>, the bytes of the
  file as body, no access policy, and the callback \<open>cbk name\<close>.
\<close>

definition entry_is_directory :: "('s, 'f) env \<Rightarrow> string \<Rightarrow> 'f \<Rightarrow> string \<Rightarrow> bool" where
  "entry_is_directory env folder d name =
     (DirectoryExisted env (path_join env folder name) d = Inr True)"

definition entry_body :: "('s, 'f) env \<Rightarrow> string \<Rightarrow> 'f \<Rightarrow> string \<Rightarrow> buffer" where
  "entry_body env folder d name =
     (case readFile env (path_join env folder name) d of Inl e \<Rightarrow> [] | Inr bs \<Rightarrow> bs)"

definition entry_readable :: "('s, 'f) env \<Rightarrow> string \<Rightarrow> 'f \<Rightarrow> string \<Rightarrow> bool" where
  "entry_readable env folder d name =
     (case DirectoryExisted env (path_join env folder name) d of
        Inl e \<Rightarrow> False
      | Inr isDirectory \<Rightarrow>
          isDirectory \<or> \<not> isl (readFile env (path_join env folder name) d))"

definition expected_uploads ::
  "('s, 'f) env \<Rightarrow> string \<Rightarrow> string \<Rightarrow> string \<Rightarrow> (string \<Rightarrow> 'c callback) \<Rightarrow> 'f \<Rightarrow>
     string list \<Rightarrow> 'c s3_call list" where
  "expected_uploads env bucketName folder remotePrefix cbk d names =
     map (\<lambda>name. PutObjectSent
                    \<lparr>PutObjectRequest.Bucket = bucketName, Key = remotePrefix @ ''/'' @ name,
                     Body = entry_body env folder d name, ACL = None\<rparr>
                    (cbk name)) names"

section \<open>Downloading by prefix\<close>

text \<open>
  The callback that \<^verbatim>\<open>DownloadObjectsAsync\<close> runs for each listed object (lines 144-159,
  341-356, 598-613), taken one object after the other.  Nothing awaits these callbacks: an
  error of \<^verbatim>\<open>MkDirsOrThrowAsync\<close> ends only the callback of that object, and an error of
  either stream has no listener.  The directory created is \<^verbatim>\<open>out_dirPath\<close>.  The write
  stream is opened whether or not the read stream delivers.
\<close>

fun download_each ::
  "('s, 'f) env \<Rightarrow> string \<Rightarrow> string \<Rightarrow> Object list \<Rightarrow> ('s, 'f, 'c) world \<Rightarrow>
     ('s, 'f, 'c) world" where
  "download_each env bucketName out_dirPath [] w = w"
| "download_each env bucketName out_dirPath (content # rest) w =
     (let out_filePath = path_join env out_dirPath (Object.Key content) in
      case MkDirsOrThrowAsync env out_dirPath (disk w) of
        Inl e \<Rightarrow>
          download_each env bucketName out_dirPath rest (w\<lparr>uncaught := uncaught w @ [e]\<rparr>)
      | Inr d1 \<Rightarrow>
          (case s3_getObject env
                  \<lparr>GetObjectRequest.Bucket = bucketName, Key = Object.Key content\<rparr>
                  (w\<lparr>disk := d1\<rparr>) of
             (r, w1) \<Rightarrow>
               (let w2 = (case r of Inl e \<Rightarrow> w1\<lparr>uncaught := uncaught w1 @ [e]\<rparr>
                                 | Inr body \<Rightarrow> w1);
                    piped = (case r of Inl e \<Rightarrow> [] | Inr body \<Rightarrow> body)
                in case createWriteStream env out_filePath piped (disk w2) of
                     Inl e \<Rightarrow>
                       download_each env bucketName out_dirPath rest
                         (w2\<lparr>uncaught := uncaught w2 @ [e]\<rparr>)
                   | Inr d2 \<Rightarrow>
                       download_each env bucketName out_dirPath rest (w2\<lparr>disk := d2\<rparr>))))"

text \<open>
  \<^verbatim>\<open>DownloadObjectsAsync\<close> (lines 137-160 and 591-614; \<^verbatim>\<open>DownloadObjects\<close> of version 2,
  lines 334-357, is the same): one listing, then the callback for each entry.
\<close>

definition DownloadObjectsAsync ::
  "('s, 'f) env \<Rightarrow> string \<Rightarrow> string \<Rightarrow> string \<Rightarrow> ('s, 'f, 'c) world \<Rightarrow>
     (exn + unit) \<times> ('s, 'f, 'c) world" where
  "DownloadObjectsAsync env bucketName out_dirPath objectPrefix w =
     (case s3_listObjectsV2 env
             \<lparr>ListObjectsV2Request.Bucket = bucketName, Prefix = objectPrefix\<rparr> w of
        (Inl e, w1) \<Rightarrow> (Inl e, w1)
      | (Inr listResult, w1) \<Rightarrow>
          (Inr (), download_each env bucketName out_dirPath
                     (optional_list (Contents listResult)) w1))"

section \<open>Deleting by prefix\<close>

text \<open>The delete request built from a listing (lines 181-191, 378-388, 635-645).\<close>

definition params_delete :: "string \<Rightarrow> ListObjectsV2Output \<Rightarrow> DeleteObjectsRequest" where
  "params_delete bucketName listResult =
     \<lparr>DeleteObjectsRequest.Bucket = bucketName,
      Delete = \<lparr>Objects = map (\<lambda>content. \<lparr>ObjectIdentifier.Key = Object.Key content\<rparr>)
                             (optional_list (Contents listResult))\<rparr>\<rparr>"

text \<open>
  \<^verbatim>\<open>DeleteObjectAsync\<close> (lines 168-203 and 622-657; \<^verbatim>\<open>DeleteObject\<close> of version 2, lines
  365-400, is the same).  Both requests are awaited outside any \<^verbatim>\<open>try\<close>.  The method calls
  itself while the listing says it was truncated, so it need not return: the value \<open>None\<close>
  stands for a run that never does.
\<close>

partial_function (option) DeleteObjectAsync ::
  "('s, 'f) env \<Rightarrow> string \<Rightarrow> string \<Rightarrow> ('s, 'f, 'c) world \<Rightarrow>
     ((exn + unit) \<times> ('s, 'f, 'c) world) option" where
  "DeleteObjectAsync env bucketName objectPrefix w =
     (case s3_listObjectsV2 env
             \<lparr>ListObjectsV2Request.Bucket = bucketName, Prefix = objectPrefix\<rparr> w of
        (Inl e, w1) \<Rightarrow> Some (Inl e, w1)
      | (Inr listResult, w1) \<Rightarrow>
          (case s3_deleteObjects env (params_delete bucketName listResult) w1 of
             (Inl e, w2) \<Rightarrow> Some (Inl e, w2)
           | (Inr deleteResult, w2) \<Rightarrow>
               if IsTruncated listResult = Some True
               then DeleteObjectAsync env bucketName objectPrefix w2
               else Some (Inr (), w2)))"

declare DeleteObjectAsync.simps [code]

text \<open>
  The shape of the log that one call of \<^verbatim>\<open>DeleteObjectAsync\<close> on bucket \<open>b\<close> and prefix
  \<open>p\<close> leaves behind, invocation by invocation: a listing for \<open>b\<close> and \<open>p\<close>; if it was
  answered, a batch delete for exactly the keys of that answer; and a further invocation
  exactly when the delete was answered and the listing was marked truncated.
\<close>

fun paged :: "string \<Rightarrow> string \<Rightarrow> 'c s3_call list \<Rightarrow> bool" where
  "paged b p (ListObjectsV2Call req (Inl e) # rest) =
     (req = \<lparr>ListObjectsV2Request.Bucket = b, Prefix = p\<rparr> \<and> rest = [])"
| "paged b p (ListObjectsV2Call req (Inr listed) # DeleteObjectsCall dreq dres # rest) =
     (req = \<lparr>ListObjectsV2Request.Bucket = b, Prefix = p\<rparr> \<and>
      dreq = params_delete b listed \<and>
      map ObjectIdentifier.Key (Objects (Delete dreq)) =
        map Object.Key (optional_list (Contents listed)) \<and>
      (if \<not> isl dres \<and> IsTruncated listed = Some True then paged b p rest else rest = []))"
| "paged b p cs = False"

text \<open>
  The answer to the last listing of a log, and the keys named in the batch deletes of a
  log.
\<close>

fun last_listing :: "'c s3_call list \<Rightarrow> (exn + ListObjectsV2Output) option" where
  "last_listing [] = None"
| "last_listing (c # cs) =
     (case last_listing cs of
        Some r \<Rightarrow> Some r
      | None \<Rightarrow> (case c of ListObjectsV2Call req r \<Rightarrow> Some r | _ \<Rightarrow> None))"

fun deleted_keys :: "'c s3_call list \<Rightarrow> string list" where
  "deleted_keys [] = []"
| "deleted_keys (DeleteObjectsCall req r # cs) =
     map ObjectIdentifier.Key (Objects (Delete req)) @ deleted_keys cs"
| "deleted_keys (c # cs) = deleted_keys cs"

text \<open>
  What the termination of \<^verbatim>\<open>DeleteObjectAsync\<close> on bucket \<open>b\<close> and prefix \<open>p\<close> rests on,
  for a property \<open>I\<close> of the store and a count \<open>m\<close> of what remains to delete: from every
  store satisfying \<open>I\<close> the listing is answered, the batch delete of the listed keys is
  answered and leaves a store satisfying \<open>I\<close>, and, when the listing was marked truncated,
  the count afterwards is smaller.
\<close>

definition pages_shrink ::
  "('s, 'f) env \<Rightarrow> string \<Rightarrow> string \<Rightarrow> ('s \<Rightarrow> bool) \<Rightarrow> ('s \<Rightarrow> nat) \<Rightarrow> bool" where
  "pages_shrink env b p I m =
     (\<forall>s. I s \<longrightarrow>
        (\<exists>listed s1 deleted s2.
           listObjectsV2 env \<lparr>ListObjectsV2Request.Bucket = b, Prefix = p\<rparr> s = (Inr listed, s1) \<and>
           deleteObjects env (params_delete b listed) s1 = (Inr deleted, s2) \<and>
           I s2 \<and> (IsTruncated listed = Some True \<longrightarrow> m s2 < m s)))"

text \<open>
  The first \<open>n\<close> invocations of \<^verbatim>\<open>DeleteObjectAsync\<close>: the body of the method, with the
  self-call followed \<open>n\<close> invocations deep.  The first component is what the method returned,
  or \<open>None\<close> when the next self-call is still due; the second is the world reached.  It
  shows the requests of a run that never returns as far as one wishes to look.
\<close>

fun DeleteObjectAsync_upto ::
  "nat \<Rightarrow> ('s, 'f) env \<Rightarrow> string \<Rightarrow> string \<Rightarrow> ('s, 'f, 'c) world \<Rightarrow>
     (exn + unit) option \<times> ('s, 'f, 'c) world" where
  "DeleteObjectAsync_upto 0 env bucketName objectPrefix w = (None, w)"
| "DeleteObjectAsync_upto (Suc n) env bucketName objectPrefix w =
     (case s3_listObjectsV2 env
             \<lparr>ListObjectsV2Request.Bucket = bucketName, Prefix = objectPrefix\<rparr> w of
        (Inl e, w1) \<Rightarrow> (Some (Inl e), w1)
      | (Inr listResult, w1) \<Rightarrow>
          (case s3_deleteObjects env (params_delete bucketName listResult) w1 of
             (Inl e, w2) \<Rightarrow> (Some (Inl e), w2)
           | (Inr deleteResult, w2) \<Rightarrow>
               if IsTruncated listResult = Some True
               then DeleteObjectAsync_upto n env bucketName objectPrefix w2
               else (Some (Inr ()), w2)))"

text \<open>
  The requests of some invocations of \<^verbatim>\<open>DeleteObjectAsync\<close> on bucket \<open>b\<close> and prefix \<open>p\<close>,
  read invocation by invocation, against the outcome \<open>res\<close> (\<open>None\<close>: a self-call is due).
  An invocation lists \<open>b\<close> and \<open>p\<close>.  A rejected listing is the last request and its error
  the outcome.  An answered listing is followed by one batch delete, for exactly the keys
  of that answer.  A rejected batch delete is the last request and its error the outcome.
  After an answered batch delete there is a self-call exactly when the listing was marked
  truncated: then the requests of the next invocation follow, or a self-call is due;
  otherwise nothing follows and the method has returned.
\<close>

fun run_shape :: "string \<Rightarrow> string \<Rightarrow> (exn + unit) option \<Rightarrow> 'c s3_call list \<Rightarrow> bool" where
  "run_shape b p res [] = (res = None)"
| "run_shape b p res (ListObjectsV2Call req (Inl e) # rest) =
     (req = \<lparr>ListObjectsV2Request.Bucket = b, Prefix = p\<rparr> \<and> rest = [] \<and> res = Some (Inl e))"
| "run_shape b p res (ListObjectsV2Call req (Inr listed) # DeleteObjectsCall dreq dres # rest) =
     (req = \<lparr>ListObjectsV2Request.Bucket = b, Prefix = p\<rparr> \<and>
      DeleteObjectsRequest.Bucket dreq = b \<and>
      map ObjectIdentifier.Key (Objects (Delete dreq)) =
        map Object.Key (optional_list (Contents listed)) \<and>
      (case dres of
         Inl e \<Rightarrow> rest = [] \<and> res = Some (Inl e)
       | Inr deleted \<Rightarrow>
           if IsTruncated listed = Some True then run_shape b p res rest
           else rest = [] \<and> res = Some (Inr ())))"
| "run_shape b p res cs = False"

section \<open>A reference environment\<close>

text \<open>
  Modelled from the spec: the two external collaborators of its section 6, for evaluating
  the methods on concrete inputs and for the properties that the spec states relative to
  the behaviour of the store.

  The local file system is a tree of regular files and directories whose root is also
  the working directory.  A path is resolved the POSIX way: split at \<^verbatim>\<open>/\<close>, empty and
  \<^verbatim>\<open>.\<close> segments dropped, \<^verbatim>\<open>..\<close> stepping up (and staying at the root).
\<close>

datatype node = File buffer | Dir "(string \<times> node) list"

fun split_sep :: "string \<Rightarrow> string list" where
  "split_sep [] = [[]]"
| "split_sep (c # cs) =
     (if c = CHR ''/'' then [] # split_sep cs
      else (case split_sep cs of
              [] \<Rightarrow> [[c]]
            | seg # segs \<Rightarrow> (c # seg) # segs))"

text \<open>
  \<^verbatim>\<open>normalizeString\<close> of Node's \<^verbatim>\<open>path\<close> module on the segments of a path; \<open>res\<close> holds
  the segments kept so far, last one first.
\<close>

fun normalizeString :: "bool \<Rightarrow> string list \<Rightarrow> string list \<Rightarrow> string list" where
  "normalizeString allowAboveRoot res [] = rev res"
| "normalizeString allowAboveRoot res (seg # segs) =
     (if seg = [] \<or> seg = ''.'' then normalizeString allowAboveRoot res segs
      else if seg = ''..'' then
        (if res \<noteq> [] \<and> hd res \<noteq> ''..'' then normalizeString allowAboveRoot (tl res) segs
         else if allowAboveRoot then normalizeString allowAboveRoot (''..'' # res) segs
         else normalizeString allowAboveRoot res segs)
      else normalizeString allowAboveRoot (seg # res) segs)"

fun join_sep :: "string list \<Rightarrow> string" where
  "join_sep [] = []"
| "join_sep [seg] = seg"
| "join_sep (seg # segs) = seg @ ''/'' @ join_sep segs"

definition normalize :: "string \<Rightarrow> string" where
  "normalize path =
     (if path = [] then ''.''
      else
        (let isAbsolute = (hd path = CHR ''/'');
             trailingSeparator = (last path = CHR ''/'');
             res = join_sep (normalizeString (\<not> isAbsolute) [] (split_sep path))
         in if res = [] then (if isAbsolute then ''/'' else if trailingSeparator then ''./'' else ''.'')
            else (if isAbsolute then ''/'' else []) @ res @
                 (if trailingSeparator then ''/'' else [])))"

text \<open>\<^verbatim>\<open>path.join\<close> of two arguments: the non-empty ones joined by \<^verbatim>\<open>/\<close>, then normalized.\<close>

definition posix_join :: "string \<Rightarrow> string \<Rightarrow> string" where
  "posix_join a b =
     (let joined = (if a = [] then b else if b = [] then a else a @ ''/'' @ b)
      in if joined = [] then ''.'' else normalize joined)"

definition segments :: "string \<Rightarrow> string list" where
  "segments path = normalizeString False [] (split_sep path)"

fun lookup :: "node \<Rightarrow> string list \<Rightarrow> node option" where
  "lookup n [] = Some n"
| "lookup (File bs) (seg # segs) = None"
| "lookup (Dir entries) (seg # segs) =
     (case map_of entries seg of None \<Rightarrow> None | Some child \<Rightarrow> lookup child segs)"

text \<open>Recursive, idempotent directory creation (\<^verbatim>\<open>mkdir -p\<close>).\<close>

fun mkdirs :: "node \<Rightarrow> string list \<Rightarrow> exn + node" where
  "mkdirs (Dir entries) [] = Inr (Dir entries)"
| "mkdirs (File bs) [] = Inl (SystemError ''EEXIST'')"
| "mkdirs (File bs) (seg # segs) = Inl (SystemError ''ENOTDIR'')"
| "mkdirs (Dir entries) (seg # segs) =
     (case mkdirs (case map_of entries seg of None \<Rightarrow> Dir [] | Some child \<Rightarrow> child) segs of
        Inl e \<Rightarrow> Inl e
      | Inr child \<Rightarrow> Inr (Dir (AList.update seg child entries)))"

text \<open>
  Opening a path for writing creates or truncates a regular file in a directory that
  exists; it creates no directory.
\<close>

fun write_file :: "node \<Rightarrow> string list \<Rightarrow> buffer \<Rightarrow> exn + node" where
  "write_file n [] bs = Inl (SystemError ''EISDIR'')"
| "write_file (File old) (seg # segs) bs = Inl (SystemError ''ENOTDIR'')"
| "write_file (Dir entries) [seg] bs =
     (case map_of entries seg of
        Some (Dir sub) \<Rightarrow> Inl (SystemError ''EISDIR'')
      | _ \<Rightarrow> Inr (Dir (AList.update seg (File bs) entries)))"
| "write_file (Dir entries) (seg # segs) bs =
     (case map_of entries seg of
        None \<Rightarrow> Inl (SystemError ''ENOENT'')
      | Some child \<Rightarrow>
          (case write_file child segs bs of
             Inl e \<Rightarrow> Inl e
           | Inr child' \<Rightarrow> Inr (Dir (AList.update seg child' entries))))"

definition tree_readdir :: "string \<Rightarrow> node \<Rightarrow> exn + string list" where
  "tree_readdir path root =
     (case lookup root (segments path) of
        None \<Rightarrow> Inl (SystemError ''ENOENT'')
      | Some (File bs) \<Rightarrow> Inl (SystemError ''ENOTDIR'')
      | Some (Dir entries) \<Rightarrow> Inr (map fst entries))"

definition tree_readFile :: "string \<Rightarrow> node \<Rightarrow> exn + buffer" where
  "tree_readFile path root =
     (case lookup root (segments path) of
        None \<Rightarrow> Inl (SystemError ''ENOENT'')
      | Some (Dir entries) \<Rightarrow> Inl (SystemError ''EISDIR'')
      | Some (File bs) \<Rightarrow> Inr bs)"

definition tree_createWriteStream :: "string \<Rightarrow> buffer \<Rightarrow> node \<Rightarrow> exn + node" where
  "tree_createWriteStream path bs root =
     (if path \<noteq> [] \<and> last path = CHR ''/'' then Inl (SystemError ''EISDIR'')
      else write_file root (segments path) bs)"

definition tree_FileExisted :: "string \<Rightarrow> node \<Rightarrow> exn + bool" where
  "tree_FileExisted path root =
     Inr (case lookup root (segments path) of Some (File bs) \<Rightarrow> True | _ \<Rightarrow> False)"

definition tree_DirectoryExisted :: "string \<Rightarrow> node \<Rightarrow> exn + bool" where
  "tree_DirectoryExisted path root =
     Inr (case lookup root (segments path) of Some (Dir entries) \<Rightarrow> True | _ \<Rightarrow> False)"

definition tree_MkDirs :: "string \<Rightarrow> node \<Rightarrow> exn + node" where
  "tree_MkDirs path root = mkdirs root (segments path)"

text \<open>
  The object store: each bucket holds its objects, key and body.  A listing returns the
  keys that start with the prefix, at most \<open>maxKeys\<close> of them, and is marked truncated when
  more remain; a batch delete removes the objects named in it; a request on a bucket that
  does not exist is answered with an error.
\<close>

type_synonym store = "(string \<times> (string \<times> buffer) list) list"

definition matching :: "store \<Rightarrow> string \<Rightarrow> string \<Rightarrow> string list" where
  "matching s b p =
     (case map_of s b of None \<Rightarrow> [] | Some objs \<Rightarrow> filter (prefix p) (map fst objs))"

definition store_listObjectsV2 ::
  "nat \<Rightarrow> ListObjectsV2Request \<Rightarrow> store \<Rightarrow> (exn + ListObjectsV2Output) \<times> store" where
  "store_listObjectsV2 maxKeys req s =
     (case map_of s (ListObjectsV2Request.Bucket req) of
        None \<Rightarrow> (Inl (AWSError ''NoSuchBucket''), s)
      | Some objs \<Rightarrow>
          (let ks = filter (prefix (Prefix req)) (map fst objs)
           in (Inr \<lparr>Contents = Some (map (\<lambda>k. \<lparr>Object.Key = k\<rparr>) (take maxKeys ks)),
                    IsTruncated = Some (maxKeys < length ks)\<rparr>, s)))"

definition store_deleteObjects ::
  "DeleteObjectsRequest \<Rightarrow> store \<Rightarrow> (exn + DeleteObjectsOutput) \<times> store" where
  "store_deleteObjects req s =
     (case map_of s (DeleteObjectsRequest.Bucket req) of
        None \<Rightarrow> (Inl (AWSError ''NoSuchBucket''), s)
      | Some objs \<Rightarrow>
          (let ks = map ObjectIdentifier.Key (Objects (Delete req))
           in (Inr \<lparr>Deleted = Some (Objects (Delete req))\<rparr>,
               AList.update (DeleteObjectsRequest.Bucket req)
                 (filter (\<lambda>obj. fst obj \<notin> set ks) objs) s)))"

definition store_put :: "PutObjectRequest \<Rightarrow> store \<Rightarrow> store option" where
  "store_put req s =
     (case map_of s (PutObjectRequest.Bucket req) of
        None \<Rightarrow> None
      | Some objs \<Rightarrow>
          Some (AList.update (PutObjectRequest.Bucket req)
                  (AList.update (PutObjectRequest.Key req) (Body req) objs) s))"

definition store_putObject ::
  "PutObjectRequest \<Rightarrow> store \<Rightarrow> (exn + PutObjectOutput) \<times> store" where
  "store_putObject req s =
     (case store_put req s of
        None \<Rightarrow> (Inl (AWSError ''NoSuchBucket''), s)
      | Some s1 \<Rightarrow> (Inr \<lparr>ETag = Body req\<rparr>, s1))"

definition store_upload ::
  "PutObjectRequest \<Rightarrow> store \<Rightarrow> (exn + SendData) \<times> store" where
  "store_upload req s =
     (case store_put req s of
        None \<Rightarrow> (Inl (AWSError ''NoSuchBucket''), s)
      | Some s1 \<Rightarrow>
          (Inr \<lparr>Location = PutObjectRequest.Bucket req @ ''/'' @ PutObjectRequest.Key req\<rparr>, s1))"

definition store_getObject :: "GetObjectRequest \<Rightarrow> store \<Rightarrow> (exn + buffer) \<times> store" where
  "store_getObject req s =
     (case map_of s (GetObjectRequest.Bucket req) of
        None \<Rightarrow> (Inl (AWSError ''NoSuchBucket''), s)
      | Some objs \<Rightarrow>
          (case map_of objs (GetObjectRequest.Key req) of
             None \<Rightarrow> (Inl (AWSError ''NoSuchKey''), s)
           | Some body \<Rightarrow> (Inr body, s)))"

definition reference_env :: "nat \<Rightarrow> (store, node) env" where
  "reference_env maxKeys =
     \<lparr>listObjectsV2 = store_listObjectsV2 maxKeys,
      deleteObjects = store_deleteObjects,
      putObject = store_putObject,
      upload = store_upload,
      getObject = store_getObject,
      readdir = tree_readdir,
      readFile = tree_readFile,
      createWriteStream = tree_createWriteStream,
      FileExisted = tree_FileExisted,
      DirectoryExisted = tree_DirectoryExisted,
      MkDirsOrThrowAsync = tree_MkDirs,
      path_join = posix_join\<rparr>"

text \<open>
  The same environment when no batch delete reaches the service: the client rejects each
  one with a networking error.
\<close>

definition offline_delete_env :: "nat \<Rightarrow> (store, node) env" where
  "offline_delete_env maxKeys =
     (reference_env maxKeys)
       \<lparr>deleteObjects := (\<lambda>req s. (Inl (AWSError ''NetworkingError''), s))\<rparr>"

definition start :: "store \<Rightarrow> node \<Rightarrow> (store, node, 'c) world" where
  "start s root = \<lparr>remote = s, disk = root, calls = [], uncaught = []\<rparr>"

text \<open>
  The reference environment with a service that answers every batch delete and removes
  nothing (each key comes back among the errors of the answer).
\<close>

definition keeping_env :: "nat \<Rightarrow> (store, node) env" where
  "keeping_env maxKeys =
     (reference_env maxKeys)
       \<lparr>deleteObjects := (\<lambda>req s. (Inr \<lparr>Deleted = Some []\<rparr>, s))\<rparr>"

section \<open>Concrete inputs\<close>

definition example_disk :: node where
  "example_disk =
     Dir [(''data'', Dir [(''clip.mp4'', File ''movie''), (''thumbs'', Dir []),
                          (''logo.png'', File ''image'')]),
          (''empty'', Dir [])]"

definition example_store :: store where
  "example_store =
     [(''isky'', [(''wm/test/a'', ''1''), (''wm/test/b'', ''2''), (''wm/other'', ''3''),
                  (''wm/test/c'', ''4'')]),
      (''staging'', [])]"

definition example_world :: "(store, node, nat) world" where
  "example_world = start example_store example_disk"

text \<open>The example world after deleting the prefix \<^verbatim>\<open>wm/test\<close> in pages of two keys.\<close>

definition example_deleted :: "(store, node, nat) world" where
  "example_deleted =
     example_world
       \<lparr>remote := [(''isky'', [(''wm/other'', ''3'')]), (''staging'', [])],
        calls :=
          [ListObjectsV2Call \<lparr>ListObjectsV2Request.Bucket = ''isky'', Prefix = ''wm/test''\<rparr>
             (Inr \<lparr>Contents = Some [\<lparr>Object.Key = ''wm/test/a''\<rparr>, \<lparr>Object.Key = ''wm/test/b''\<rparr>],
                   IsTruncated = Some True\<rparr>),
           DeleteObjectsCall
             \<lparr>DeleteObjectsRequest.Bucket = ''isky'',
              Delete = \<lparr>Objects = [\<lparr>ObjectIdentifier.Key = ''wm/test/a''\<rparr>,
                                  \<lparr>ObjectIdentifier.Key = ''wm/test/b''\<rparr>]\<rparr>\<rparr>
             (Inr \<lparr>Deleted = Some [\<lparr>ObjectIdentifier.Key = ''wm/test/a''\<rparr>,
                                   \<lparr>ObjectIdentifier.Key = ''wm/test/b''\<rparr>]\<rparr>),
           ListObjectsV2Call \<lparr>ListObjectsV2Request.Bucket = ''isky'', Prefix = ''wm/test''\<rparr>
             (Inr \<lparr>Contents = Some [\<lparr>Object.Key = ''wm/test/c''\<rparr>], IsTruncated = Some False\<rparr>),
           DeleteObjectsCall
             \<lparr>DeleteObjectsRequest.Bucket = ''isky'',
              Delete = \<lparr>Objects = [\<lparr>ObjectIdentifier.Key = ''wm/test/c''\<rparr>]\<rparr>\<rparr>
             (Inr \<lparr>Deleted = Some [\<lparr>ObjectIdentifier.Key = ''wm/test/c''\<rparr>]\<rparr>)]\<rparr>"

text \<open>The same world after deleting the prefix a second time.\<close>

definition example_deleted_again :: "(store, node, nat) world" where
  "example_deleted_again =
     example_deleted
       \<lparr>calls := calls example_deleted @
          [ListObjectsV2Call \<lparr>ListObjectsV2Request.Bucket = ''isky'', Prefix = ''wm/test''\<rparr>
             (Inr \<lparr>Contents = Some [], IsTruncated = Some False\<rparr>),
           DeleteObjectsCall
             \<lparr>DeleteObjectsRequest.Bucket = ''isky'', Delete = \<lparr>Objects = []\<rparr>\<rparr>
             (Inr \<lparr>Deleted = Some []\<rparr>)]\<rparr>"

text \<open>
  A round trip: \<^verbatim>\<open>data/clip.mp4\<close> is uploaded to the key \<^verbatim>\<open>upload/today/movie.mp4\<close>, and
  the prefix \<^verbatim>\<open>upload/today\<close> is then downloaded into \<^verbatim>\<open>out\<close>.  The second pair does the
  same with the key \<^verbatim>\<open>movie.mp4\<close> and the prefix \<^verbatim>\<open>movie\<close>.
\<close>

definition uploaded_world :: "(store, node, nat) world" where
  "uploaded_world =
     snd (UploadFileAsync_v3 (reference_env 1000) ''staging'' ''data/clip.mp4''
            ''upload/today/movie.mp4'' None example_world)"

definition downloaded_world :: "(store, node, nat) world" where
  "downloaded_world =
     snd (DownloadObjectsAsync (reference_env 1000) ''staging'' ''out'' ''upload/today''
            uploaded_world)"

definition uploaded_flat_world :: "(store, node, nat) world" where
  "uploaded_flat_world =
     snd (UploadFileAsync_v3 (reference_env 1000) ''staging'' ''data/clip.mp4''
            ''movie.mp4'' None example_world)"

definition downloaded_flat_world :: "(store, node, nat) world" where
  "downloaded_flat_world =
     snd (DownloadObjectsAsync (reference_env 1000) ''staging'' ''out'' ''movie''
            uploaded_flat_world)"

text \<open>A folder of 10001 entries: one regular file and 10000 subdirectories.\<close>

definition crowded_folder :: "(string \<times> node) list" where
  "crowded_folder =
     (''logo.png'', File ''image'') #
     map (\<lambda>i. (replicate (Suc i) CHR ''d'', Dir [])) [0..<10000]"

definition crowded_world :: "(store, node, nat) world" where
  "crowded_world = start example_store (Dir [(''big'', Dir crowded_folder)])"

section \<open>Properties\<close>

subsection \<open>Uploading one file\<close>

text \<open>
  C1.  When \<^verbatim>\<open>FileExisted\<close> answers that the local path is not an existing regular file,
  \<^verbatim>\<open>UploadFileAsync\<close> (both versions) and \<^verbatim>\<open>PutFileAsync\<close> return a result whose payload is
  null and whose error is \<^verbatim>\<open>Error("File not exist")\<close>, for every bucket, key and access
  policy.  The world comes back as it was: no request was sent to the service.
\<close>

theorem UploadFile_missing_file:
  assumes "FileExisted env clientFilePath (disk w) = Inr False"
  shows "UploadFileAsync_v1 env bucketName clientFilePath key w =
           (Inr \<lparr>result = None, error = Some (Error ''File not exist'')\<rparr>, w) \<and>
         UploadFileAsync_v3 env bucketName clientFilePath key acl w =
           (Inr \<lparr>data = None, err = Some (Error ''File not exist'')\<rparr>, w) \<and>
         PutFileAsync env bucketName clientFilePath key acl w =
           (Inr \<lparr>data = None, err = Some (Error ''File not exist'')\<rparr>, w)"
  using assms
  by (simp add: UploadFileAsync_v1_def UploadFileAsync_v1_try_def UploadFileAsync_v3_def
      UploadFileAsync_v3_try_def PutFileAsync_def PutFileAsync_try_def)

theorem UploadFile_missing_file_witness:
  "FileExisted (reference_env 1000) ''./data/nope.mp4'' (disk example_world) = Inr False \<and>
   UploadFileAsync_v1 (reference_env 1000) ''staging'' ''./data/nope.mp4'' ''upload/today/movie.mp4''
       example_world =
     (Inr \<lparr>result = None, error = Some (Error ''File not exist'')\<rparr>, example_world) \<and>
   UploadFileAsync_v3 (reference_env 1000) ''staging'' ''./data/nope.mp4'' ''upload/today/movie.mp4''
       None example_world =
     (Inr \<lparr>data = None, err = Some (Error ''File not exist'')\<rparr>, example_world) \<and>
   PutFileAsync (reference_env 1000) ''staging'' ''./data/nope.mp4'' ''upload/today/movie.mp4''
       None example_world =
     (Inr \<lparr>data = None, err = Some (Error ''File not exist'')\<rparr>, example_world)"
proof -
  have missing:
    "FileExisted (reference_env 1000) ''./data/nope.mp4'' (disk example_world) = Inr False"
    by (simp add: reference_env_def tree_FileExisted_def example_world_def start_def
        example_disk_def segments_def)
  from UploadFile_missing_file [OF missing] missing show ?thesis by simp
qed

subsection \<open>The ceiling of the folder upload\<close>

text \<open>
  C9.  The ceiling of 10000 is tested on the number of names that \<^verbatim>\<open>readdir\<close> returned,
  before any name is examined: whatever the entries are, a folder with more than 10000 of
  them is refused by \<^verbatim>\<open>UploadFolderAsync\<close> and \<^verbatim>\<open>PutFolderAsync\<close>, which return with the
  world unchanged, so with no upload sent.
\<close>

theorem ceiling_counts_every_entry:
  assumes "readdir env fromLocalFolderPath (disk w) = Inr fileNames"
    and "length fileNames > 10000"
  shows "UploadFolderAsync env bucketName fromLocalFolderPath toS3RelativeFolderPath cb w = (Inr (), w) \<and>
         PutFolderAsync env bucketName fromLocalFolderPath toS3RelativeFolderPath cb w = (Inr (), w)"
  using assms by (simp add: UploadFolderAsync_def PutFolderAsync_def)

lemma crowded_readdir:
  "readdir (reference_env 1000) ''big'' (disk crowded_world) = Inr (map fst crowded_folder)"
  by (simp add: reference_env_def tree_readdir_def crowded_world_def start_def segments_def)

lemma crowded_length: "length (map fst crowded_folder) = 10001"
  by (simp add: crowded_folder_def)

lemma crowded_files:
  "filter (\<lambda>entry. case snd entry of File bs \<Rightarrow> True | Dir sub \<Rightarrow> False) crowded_folder = [(''logo.png'', File ''image'')]"
  by (simp add: crowded_folder_def filter_map comp_def)

theorem ceiling_counts_every_entry_witness:
  "readdir (reference_env 1000) ''big'' (disk crowded_world) = Inr (map fst crowded_folder) \<and>
   length (map fst crowded_folder) > 10000 \<and>
   length (filter (\<lambda>entry. case snd entry of File bs \<Rightarrow> True | Dir sub \<Rightarrow> False) crowded_folder) \<le> 10000 \<and>
   UploadFolderAsync (reference_env 1000) ''staging'' ''big'' ''upload/today'' 0 crowded_world = (Inr (), crowded_world) \<and>
   PutFolderAsync (reference_env 1000) ''staging'' ''big'' ''upload/today'' 0 crowded_world = (Inr (), crowded_world)"
proof -
  have big: "length (map fst crowded_folder) > 10000"
    by (simp add: crowded_folder_def)
  have few: "length (filter (\<lambda>entry. case snd entry of File bs \<Rightarrow> True | Dir sub \<Rightarrow> False) crowded_folder) \<le> 10000"
    by (simp add: crowded_files)
  from ceiling_counts_every_entry [OF crowded_readdir big] crowded_readdir big few
  show ?thesis by blast
qed

lemma UploadFolder_empty_folder:
  assumes "readdir env fromLocalFolderPath (disk w) = Inr []"
  shows "UploadFolderAsync env bucketName fromLocalFolderPath toS3RelativeFolderPath cb w = (Inr (), w) \<and>
         PutFolderAsync env bucketName fromLocalFolderPath toS3RelativeFolderPath cb w = (Inr (), w)"
  using assms by (simp add: UploadFolderAsync_def PutFolderAsync_def)

text \<open>
  C3, at a folder that does not exist.  \<^verbatim>\<open>readdir\<close> rejects with \<^verbatim>\<open>ENOENT\<close>; the
  rejection is not caught, so it leaves \<^verbatim>\<open>UploadFolderAsync\<close> and \<^verbatim>\<open>PutFolderAsync\<close>.  No
  upload is sent.
\<close>

theorem UploadFolder_missing_folder_rejects:
  "UploadFolderAsync (reference_env 1000) ''staging'' ''./nope'' ''upload/today'' 0 example_world =
     (Inl (SystemError ''ENOENT''), example_world) \<and>
   PutFolderAsync (reference_env 1000) ''staging'' ''./nope'' ''upload/today'' 0 example_world =
     (Inl (SystemError ''ENOENT''), example_world)"
  by (simp add: UploadFolderAsync_def PutFolderAsync_def reference_env_def tree_readdir_def
      example_world_def start_def example_disk_def segments_def)

subsection \<open>Deleting by prefix: the requests of one run\<close>

lemma params_delete_keys:
  "map ObjectIdentifier.Key (Objects (Delete (params_delete b listed))) =
     map Object.Key (optional_list (Contents listed))"
  by (simp add: params_delete_def comp_def)

lemma DeleteObjectAsync_trace:
  assumes "DeleteObjectAsync env b p w = Some y"
  shows "\<exists>tr. calls (snd y) = calls w @ tr \<and> paged b p tr"
proof (rule DeleteObjectAsync.raw_induct
    [where P = "\<lambda>env b p w y. \<exists>tr. calls (snd y) = calls w @ tr \<and> paged b p tr", OF _ assms])
  fix dao :: "('a, 'b) env \<Rightarrow> string \<Rightarrow> string \<Rightarrow> ('a, 'b, 'c) world \<Rightarrow> ((exn + unit) \<times> ('a, 'b, 'c) world) option"
    and env :: "('a, 'b) env" and b p and w :: "('a, 'b, 'c) world" and y
  assume IH: "\<And>env b p w y. dao env b p w = Some y \<Longrightarrow> \<exists>tr. calls (snd y) = calls w @ tr \<and> paged b p tr"
    and body: "(case s3_listObjectsV2 env \<lparr>ListObjectsV2Request.Bucket = b, Prefix = p\<rparr> w of
        (Inl e, w1) \<Rightarrow> Some (Inl e, w1)
      | (Inr listResult, w1) \<Rightarrow>
          (case s3_deleteObjects env (params_delete b listResult) w1 of
             (Inl e, w2) \<Rightarrow> Some (Inl e, w2)
           | (Inr deleteResult, w2) \<Rightarrow>
               if IsTruncated listResult = Some True
               then dao env b p w2
               else Some (Inr (), w2))) = Some y"
  obtain lres s1 where l: "listObjectsV2 env \<lparr>ListObjectsV2Request.Bucket = b, Prefix = p\<rparr> (remote w) = (lres, s1)"
    by (cases "listObjectsV2 env \<lparr>ListObjectsV2Request.Bucket = b, Prefix = p\<rparr> (remote w)")
  show "\<exists>tr. calls (snd y) = calls w @ tr \<and> paged b p tr"
  proof (cases lres)
    case (Inl e)
    with body l have "calls (snd y) = calls w @ [ListObjectsV2Call \<lparr>ListObjectsV2Request.Bucket = b, Prefix = p\<rparr> (Inl e)]"
      by (auto simp: s3_listObjectsV2_def)
    then show ?thesis by simp
  next
    case (Inr listed)
    let ?w1 = "w\<lparr>remote := s1, calls := calls w @ [ListObjectsV2Call \<lparr>ListObjectsV2Request.Bucket = b, Prefix = p\<rparr> (Inr listed)]\<rparr>"
    obtain dres s2 where d: "deleteObjects env (params_delete b listed) s1 = (dres, s2)"
      by (cases "deleteObjects env (params_delete b listed) s1")
    let ?w2 = "?w1\<lparr>remote := s2, calls := calls ?w1 @ [DeleteObjectsCall (params_delete b listed) dres]\<rparr>"
    show ?thesis
    proof (cases dres)
      case (Inl e)
      with body l d Inr have "calls (snd y) = calls ?w2"
        by (auto simp: s3_listObjectsV2_def s3_deleteObjects_def)
      with Inl show ?thesis by (simp add: params_delete_keys)
    next
      case dr: (Inr deleted)
      show ?thesis
      proof (cases "IsTruncated listed = Some True")
        case True
        with body l d Inr dr have "dao env b p ?w2 = Some y"
          by (auto simp: s3_listObjectsV2_def s3_deleteObjects_def)
        from IH [OF this] obtain tr where "calls (snd y) = calls ?w2 @ tr" "paged b p tr" by blast
        with True dr show ?thesis by (simp add: params_delete_keys)
      next
        case False
        with body l d Inr dr have "calls (snd y) = calls ?w2"
          by (auto simp: s3_listObjectsV2_def s3_deleteObjects_def)
        with False dr show ?thesis by (simp add: params_delete_keys)
      qed
    qed
  qed
qed

lemma DeleteObjectAsync_listed:
  assumes "listObjectsV2 env \<lparr>ListObjectsV2Request.Bucket = b, Prefix = p\<rparr> (remote w) = (Inr listed, s1)"
      and "deleteObjects env (params_delete b listed) s1 = (dres, s2)"
  shows "DeleteObjectAsync env b p w =
     (let w2 = w\<lparr>remote := s2,
                  calls := calls w @ [ListObjectsV2Call \<lparr>ListObjectsV2Request.Bucket = b, Prefix = p\<rparr> (Inr listed),
                                      DeleteObjectsCall (params_delete b listed) dres]\<rparr>
      in case dres of
           Inl e \<Rightarrow> Some (Inl e, w2)
         | Inr deleted \<Rightarrow>
             if IsTruncated listed = Some True then DeleteObjectAsync env b p w2
             else Some (Inr (), w2))"
  using assms
  by (subst DeleteObjectAsync.simps)
     (simp add: s3_listObjectsV2_def s3_deleteObjects_def split: sum.splits)

lemmas env_simps = reference_env_def offline_delete_env_def store_listObjectsV2_def store_deleteObjects_def
  s3_listObjectsV2_def s3_deleteObjects_def params_delete_def optional_list_def
  example_world_def example_store_def start_def

lemma run1: "DeleteObjectAsync (reference_env 2) ''isky'' ''wm/test'' example_world = Some (Inr (), example_deleted)"
  by (simp add: DeleteObjectAsync.simps env_simps example_deleted_def)

lemma upto_returns:
  "DeleteObjectAsync_upto n env b p w = (Some r, w1) \<Longrightarrow>
     DeleteObjectAsync env b p w = Some (r, w1)"
proof (induction n arbitrary: w)
  case 0
  then show ?case by simp
next
  case (Suc n)
  obtain lres v1 where l: "s3_listObjectsV2 env \<lparr>ListObjectsV2Request.Bucket = b, Prefix = p\<rparr> w = (lres, v1)"
    by (cases "s3_listObjectsV2 env \<lparr>ListObjectsV2Request.Bucket = b, Prefix = p\<rparr> w")
  show ?case
  proof (cases lres)
    case (Inl e)
    with l Suc.prems show ?thesis by (subst DeleteObjectAsync.simps) simp
  next
    case (Inr listed)
    obtain dres v2 where d: "s3_deleteObjects env (params_delete b listed) v1 = (dres, v2)"
      by (cases "s3_deleteObjects env (params_delete b listed) v1")
    show ?thesis
    proof (cases dres)
      case (Inl e)
      with l d Inr Suc.prems show ?thesis by (subst DeleteObjectAsync.simps) simp
    next
      case dr: (Inr deleted)
      show ?thesis
      proof (cases "IsTruncated listed = Some True")
        case True
        with l d Inr dr Suc.prems have "DeleteObjectAsync_upto n env b p v2 = (Some r, w1)" by simp
        from Suc.IH [OF this] l d Inr dr True show ?thesis
          by (subst DeleteObjectAsync.simps) simp
      next
        case False
        with l d Inr dr Suc.prems show ?thesis by (subst DeleteObjectAsync.simps) simp
      qed
    qed
  qed
qed

lemma returns_upto:
  assumes "DeleteObjectAsync env b p w = Some y"
  shows "\<exists>n. DeleteObjectAsync_upto n env b p w = (Some (fst y), snd y)"
proof (rule DeleteObjectAsync.raw_induct
    [where P = "\<lambda>env b p w y. \<exists>n. DeleteObjectAsync_upto n env b p w = (Some (fst y), snd y)",
     OF _ assms])
  fix dao :: "('a, 'b) env \<Rightarrow> string \<Rightarrow> string \<Rightarrow> ('a, 'b, 'c) world \<Rightarrow> ((exn + unit) \<times> ('a, 'b, 'c) world) option"
    and env :: "('a, 'b) env" and b p and w :: "('a, 'b, 'c) world" and y
  assume IH: "\<And>env b p w y. dao env b p w = Some y \<Longrightarrow>
      \<exists>n. DeleteObjectAsync_upto n env b p w = (Some (fst y), snd y)"
    and body: "(case s3_listObjectsV2 env \<lparr>ListObjectsV2Request.Bucket = b, Prefix = p\<rparr> w of
        (Inl e, w1) \<Rightarrow> Some (Inl e, w1)
      | (Inr listResult, w1) \<Rightarrow>
          (case s3_deleteObjects env (params_delete b listResult) w1 of
             (Inl e, w2) \<Rightarrow> Some (Inl e, w2)
           | (Inr deleteResult, w2) \<Rightarrow>
               if IsTruncated listResult = Some True
               then dao env b p w2
               else Some (Inr (), w2))) = Some y"
  obtain lres v1 where l: "s3_listObjectsV2 env \<lparr>ListObjectsV2Request.Bucket = b, Prefix = p\<rparr> w = (lres, v1)"
    by (cases "s3_listObjectsV2 env \<lparr>ListObjectsV2Request.Bucket = b, Prefix = p\<rparr> w")
  show "\<exists>n. DeleteObjectAsync_upto n env b p w = (Some (fst y), snd y)"
  proof (cases lres)
    case (Inl e)
    with body l have "DeleteObjectAsync_upto (Suc 0) env b p w = (Some (fst y), snd y)" by auto
    then show ?thesis ..
  next
    case (Inr listed)
    obtain dres v2 where d: "s3_deleteObjects env (params_delete b listed) v1 = (dres, v2)"
      by (cases "s3_deleteObjects env (params_delete b listed) v1")
    show ?thesis
    proof (cases dres)
      case (Inl e)
      with body l d Inr have "DeleteObjectAsync_upto (Suc 0) env b p w = (Some (fst y), snd y)"
        by auto
      then show ?thesis ..
    next
      case dr: (Inr deleted)
      show ?thesis
      proof (cases "IsTruncated listed = Some True")
        case True
        with body l d Inr dr have "dao env b p v2 = Some y" by simp
        from IH [OF this] obtain n where
          "DeleteObjectAsync_upto n env b p v2 = (Some (fst y), snd y)" ..
        with l d Inr dr True
        have "DeleteObjectAsync_upto (Suc n) env b p w = (Some (fst y), snd y)" by simp
        then show ?thesis ..
      next
        case False
        with body l d Inr dr have "DeleteObjectAsync_upto (Suc 0) env b p w = (Some (fst y), snd y)"
          by auto
        then show ?thesis ..
      qed
    qed
  qed
qed

lemma upto_shape:
  "\<exists>tr. calls (snd (DeleteObjectAsync_upto n env b p w)) = calls w @ tr \<and>
        run_shape b p (fst (DeleteObjectAsync_upto n env b p w)) tr"
proof (induction n arbitrary: w)
  case 0
  show ?case by simp
next
  case (Suc n)
  let ?req = "\<lparr>ListObjectsV2Request.Bucket = b, Prefix = p\<rparr>"
  obtain lres s1 where l: "listObjectsV2 env ?req (remote w) = (lres, s1)"
    by (cases "listObjectsV2 env ?req (remote w)")
  show ?case
  proof (cases lres)
    case (Inl e)
    with l show ?thesis by (simp add: s3_listObjectsV2_def)
  next
    case (Inr listed)
    let ?w1 = "w\<lparr>remote := s1, calls := calls w @ [ListObjectsV2Call ?req (Inr listed)]\<rparr>"
    obtain dres s2 where d: "deleteObjects env (params_delete b listed) s1 = (dres, s2)"
      by (cases "deleteObjects env (params_delete b listed) s1")
    let ?w2 = "?w1\<lparr>remote := s2, calls := calls ?w1 @ [DeleteObjectsCall (params_delete b listed) dres]\<rparr>"
    have pb: "DeleteObjectsRequest.Bucket (params_delete b listed) = b"
      by (simp add: params_delete_def)
    show ?thesis
    proof (cases dres)
      case (Inl e)
      with l d Inr show ?thesis
        by (simp add: s3_listObjectsV2_def s3_deleteObjects_def params_delete_keys pb)
    next
      case dr: (Inr deleted)
      show ?thesis
      proof (cases "IsTruncated listed = Some True")
        case True
        from Suc.IH [of ?w2] obtain tr where
          tr: "calls (snd (DeleteObjectAsync_upto n env b p ?w2)) = calls ?w2 @ tr"
            "run_shape b p (fst (DeleteObjectAsync_upto n env b p ?w2)) tr"
          by blast
        from l d Inr dr True
        have step: "DeleteObjectAsync_upto (Suc n) env b p w = DeleteObjectAsync_upto n env b p ?w2"
          by (simp add: s3_listObjectsV2_def s3_deleteObjects_def)
        let ?tr = "ListObjectsV2Call ?req (Inr listed) #
                   DeleteObjectsCall (params_delete b listed) (Inr deleted) # tr"
        from tr(1) dr have "calls (snd (DeleteObjectAsync_upto (Suc n) env b p w)) = calls w @ ?tr"
          unfolding step by simp
        moreover from tr(2) True
        have "run_shape b p (fst (DeleteObjectAsync_upto (Suc n) env b p w)) ?tr"
          unfolding step by (simp add: params_delete_keys pb)
        ultimately show ?thesis by blast
      next
        case False
        with l d Inr dr show ?thesis
          by (simp add: s3_listObjectsV2_def s3_deleteObjects_def params_delete_keys pb)
      qed
    qed
  qed
qed


lemma keeping_never_returns:
  "remote w = example_store \<Longrightarrow>
     fst (DeleteObjectAsync_upto k (keeping_env 2) ''isky'' ''wm/test'' w) = None"
proof (induction k arbitrary: w)
  case 0
  show ?case by simp
next
  case (Suc k)
  let ?listed = "\<lparr>Contents = Some [\<lparr>Object.Key = ''wm/test/a''\<rparr>, \<lparr>Object.Key = ''wm/test/b''\<rparr>],
                   IsTruncated = Some True\<rparr>"
  let ?w2 = "w\<lparr>remote := example_store,
               calls := calls w @
                 [ListObjectsV2Call \<lparr>ListObjectsV2Request.Bucket = ''isky'', Prefix = ''wm/test''\<rparr>
                    (Inr ?listed),
                  DeleteObjectsCall (params_delete ''isky'' ?listed) (Inr \<lparr>Deleted = Some []\<rparr>)]\<rparr>"
  from Suc.prems
  have "DeleteObjectAsync_upto (Suc k) (keeping_env 2) ''isky'' ''wm/test'' w =
          DeleteObjectAsync_upto k (keeping_env 2) ''isky'' ''wm/test'' ?w2"
    by (simp add: keeping_env_def reference_env_def store_listObjectsV2_def
        s3_listObjectsV2_def s3_deleteObjects_def example_store_def)
  moreover have "remote ?w2 = example_store" by simp
  ultimately show ?case using Suc.IH [of ?w2] by simp
qed

text \<open>
  C2, as amended.  Look at any number \<open>n\<close> of invocations of one call of
  \<^verbatim>\<open>DeleteObjectAsync\<close>, whether the call returns or not.  The requests they added to the
  log have the shape \<open>run_shape\<close>: every invocation lists the bucket and prefix; when the
  listing is answered it sends one batch delete, whose keys are exactly the keys of that
  answer, in the same order; and it calls itself exactly when the listing was marked
  truncated and the batch delete was answered.  The call returns a result exactly when
  some number of invocations produces it, and never returns exactly when after every number
  of invocations a self-call is still due; so the requests of a call that returns have
  that shape as well.
\<close>

theorem DeleteObjectAsync_pages:
  "(\<exists>tr. calls (snd (DeleteObjectAsync_upto n env b p w)) = calls w @ tr \<and>
         run_shape b p (fst (DeleteObjectAsync_upto n env b p w)) tr) \<and>
   (DeleteObjectAsync env b p w = Some (r, w1) \<longleftrightarrow>
      (\<exists>k. DeleteObjectAsync_upto k env b p w = (Some r, w1))) \<and>
   (DeleteObjectAsync env b p w = None \<longleftrightarrow>
      (\<forall>k. fst (DeleteObjectAsync_upto k env b p w) = None)) \<and>
   (DeleteObjectAsync env b p w = Some (r, w1) \<longrightarrow>
      (\<exists>tr. calls w1 = calls w @ tr \<and> run_shape b p (Some r) tr))"
proof (intro conjI)
  show "\<exists>tr. calls (snd (DeleteObjectAsync_upto n env b p w)) = calls w @ tr \<and>
          run_shape b p (fst (DeleteObjectAsync_upto n env b p w)) tr"
    by (rule upto_shape)
  show ends: "DeleteObjectAsync env b p w = Some (r, w1) \<longleftrightarrow>
      (\<exists>k. DeleteObjectAsync_upto k env b p w = (Some r, w1))"
  proof
    assume "DeleteObjectAsync env b p w = Some (r, w1)"
    from returns_upto [OF this] show "\<exists>k. DeleteObjectAsync_upto k env b p w = (Some r, w1)"
      by simp
  next
    assume "\<exists>k. DeleteObjectAsync_upto k env b p w = (Some r, w1)"
    then obtain k where "DeleteObjectAsync_upto k env b p w = (Some r, w1)" ..
    then show "DeleteObjectAsync env b p w = Some (r, w1)" by (rule upto_returns)
  qed
  show "DeleteObjectAsync env b p w = None \<longleftrightarrow>
      (\<forall>k. fst (DeleteObjectAsync_upto k env b p w) = None)"
  proof
    assume never: "DeleteObjectAsync env b p w = None"
    show "\<forall>k. fst (DeleteObjectAsync_upto k env b p w) = None"
    proof (rule allI, rule ccontr)
      fix k
      assume "fst (DeleteObjectAsync_upto k env b p w) \<noteq> None"
      then obtain r' where "fst (DeleteObjectAsync_upto k env b p w) = Some r'" by blast
      then have "DeleteObjectAsync_upto k env b p w =
          (Some r', snd (DeleteObjectAsync_upto k env b p w))"
        by (cases "DeleteObjectAsync_upto k env b p w") simp
      from upto_returns [OF this] never show False by simp
    qed
  next
    assume due: "\<forall>k. fst (DeleteObjectAsync_upto k env b p w) = None"
    show "DeleteObjectAsync env b p w = None"
    proof (rule ccontr)
      assume "DeleteObjectAsync env b p w \<noteq> None"
      then obtain y where "DeleteObjectAsync env b p w = Some y" by blast
      from returns_upto [OF this] obtain k where
        "DeleteObjectAsync_upto k env b p w = (Some (fst y), snd y)" ..
      with due show False by (metis fst_conv option.distinct(1))
    qed
  qed
  show "DeleteObjectAsync env b p w = Some (r, w1) \<longrightarrow>
      (\<exists>tr. calls w1 = calls w @ tr \<and> run_shape b p (Some r) tr)"
  proof
    assume "DeleteObjectAsync env b p w = Some (r, w1)"
    from returns_upto [OF this] obtain k where
      k: "DeleteObjectAsync_upto k env b p w = (Some r, w1)" by auto
    from upto_shape [of k env b p w] show "\<exists>tr. calls w1 = calls w @ tr \<and> run_shape b p (Some r) tr"
      unfolding k by simp
  qed
qed

theorem DeleteObjectAsync_pages_witness:
  "fst (DeleteObjectAsync_upto 1 (reference_env 2) ''isky'' ''wm/test'' example_world) = None \<and>
   run_shape ''isky'' ''wm/test'' None
     (calls (snd (DeleteObjectAsync_upto 1 (reference_env 2) ''isky'' ''wm/test'' example_world))) \<and>
   DeleteObjectAsync_upto 2 (reference_env 2) ''isky'' ''wm/test'' example_world =
     (Some (Inr ()), example_deleted) \<and>
   DeleteObjectAsync (reference_env 2) ''isky'' ''wm/test'' example_world =
     Some (Inr (), example_deleted) \<and>
   run_shape ''isky'' ''wm/test'' (Some (Inr ())) (calls example_deleted) \<and>
   DeleteObjectAsync (keeping_env 2) ''isky'' ''wm/test'' example_world = None \<and>
   run_shape ''isky'' ''wm/test'' None
     (calls (snd (DeleteObjectAsync_upto 3 (keeping_env 2) ''isky'' ''wm/test'' example_world)))"
proof -
  let ?E = "reference_env 2 :: (store, node) env"
  let ?K = "keeping_env 2 :: (store, node) env"
  have start_calls: "calls example_world = []" by (simp add: example_world_def start_def)
  have one: "fst (DeleteObjectAsync_upto 1 ?E ''isky'' ''wm/test'' example_world) = None"
    by (simp add: env_simps)
  have two: "DeleteObjectAsync_upto 2 ?E ''isky'' ''wm/test'' example_world =
      (Some (Inr ()), example_deleted)"
    by (simp add: numeral_2_eq_2 env_simps example_deleted_def)
  have due: "\<forall>k. fst (DeleteObjectAsync_upto k ?K ''isky'' ''wm/test'' example_world) = None"
    by (simp add: keeping_never_returns example_world_def start_def)
  note at1 = DeleteObjectAsync_pages [of 1 ?E "''isky''" "''wm/test''" example_world
      "Inr ()" example_deleted]
  note at3 = DeleteObjectAsync_pages [of 3 ?K "''isky''" "''wm/test''" example_world
      "Inr ()" example_deleted]
  from at1 [THEN conjunct1] one start_calls
  have a: "run_shape ''isky'' ''wm/test'' None
     (calls (snd (DeleteObjectAsync_upto 1 ?E ''isky'' ''wm/test'' example_world)))"
    by auto
  from at1 [THEN conjunct2, THEN conjunct1] two
  have b: "DeleteObjectAsync ?E ''isky'' ''wm/test'' example_world = Some (Inr (), example_deleted)"
    by blast
  from at1 [THEN conjunct2, THEN conjunct2, THEN conjunct2] b start_calls
  have c: "run_shape ''isky'' ''wm/test'' (Some (Inr ())) (calls example_deleted)"
    by auto
  from at3 [THEN conjunct2, THEN conjunct2, THEN conjunct1] due
  have d: "DeleteObjectAsync ?K ''isky'' ''wm/test'' example_world = None"
    by blast
  from at3 [THEN conjunct1] due start_calls
  have e: "run_shape ''isky'' ''wm/test'' None
     (calls (snd (DeleteObjectAsync_upto 3 ?K ''isky'' ''wm/test'' example_world)))"
    by auto
  from one a two b c d e show ?thesis by blast
qed

text \<open>
  C2, as stated, fails where the batch delete is rejected: the listing of the first
  invocation is marked truncated, and yet the run ends after the rejected batch delete,
  without a second invocation.
\<close>

theorem failed_delete_ends_truncated_run:
  "DeleteObjectAsync (offline_delete_env 2) ''isky'' ''wm/test'' example_world =
     Some (Inl (AWSError ''NetworkingError''),
       example_world
       \<lparr>calls :=
          [ListObjectsV2Call \<lparr>ListObjectsV2Request.Bucket = ''isky'', Prefix = ''wm/test''\<rparr>
             (Inr \<lparr>Contents = Some [\<lparr>Object.Key = ''wm/test/a''\<rparr>, \<lparr>Object.Key = ''wm/test/b''\<rparr>],
                   IsTruncated = Some True\<rparr>),
           DeleteObjectsCall
             \<lparr>DeleteObjectsRequest.Bucket = ''isky'',
              Delete = \<lparr>Objects = [\<lparr>ObjectIdentifier.Key = ''wm/test/a''\<rparr>,
                                  \<lparr>ObjectIdentifier.Key = ''wm/test/b''\<rparr>]\<rparr>\<rparr>
             (Inl (AWSError ''NetworkingError''))]\<rparr>)"
  by (simp add: DeleteObjectAsync.simps env_simps)

text \<open>
  C10.  When the listing is answered with no objects (an absent or an empty \<^verbatim>\<open>Contents\<close>),
  the invocation does not stop there: it sends a batch delete whose key list is empty, and
  only then fails with the error of that delete, calls itself if the listing was marked
  truncated, or returns.
\<close>

theorem empty_listing_still_deletes:
  assumes "listObjectsV2 env \<lparr>ListObjectsV2Request.Bucket = b, Prefix = p\<rparr> (remote w) = (Inr listed, s1)"
    and "optional_list (Contents listed) = []"
    and "deleteObjects env \<lparr>DeleteObjectsRequest.Bucket = b, Delete = \<lparr>Objects = []\<rparr>\<rparr> s1 = (dres, s2)"
  shows "DeleteObjectAsync env b p w =
     (let w2 = w\<lparr>remote := s2,
                  calls := calls w @
                    [ListObjectsV2Call \<lparr>ListObjectsV2Request.Bucket = b, Prefix = p\<rparr> (Inr listed),
                     DeleteObjectsCall \<lparr>DeleteObjectsRequest.Bucket = b, Delete = \<lparr>Objects = []\<rparr>\<rparr> dres]\<rparr>
      in case dres of
           Inl e \<Rightarrow> Some (Inl e, w2)
         | Inr deleted \<Rightarrow>
             if IsTruncated listed = Some True then DeleteObjectAsync env b p w2
             else Some (Inr (), w2))"
proof -
  have pd: "params_delete b listed = \<lparr>DeleteObjectsRequest.Bucket = b, Delete = \<lparr>Objects = []\<rparr>\<rparr>"
    using assms(2) by (simp add: params_delete_def)
  have "deleteObjects env (params_delete b listed) s1 = (dres, s2)"
    using assms(3) pd by simp
  from DeleteObjectAsync_listed [OF assms(1) this] pd show ?thesis by simp
qed

theorem empty_listing_still_deletes_witness:
  "listObjectsV2 (reference_env 2) \<lparr>ListObjectsV2Request.Bucket = ''isky'', Prefix = ''wm/none''\<rparr>
       (remote example_world) =
     (Inr \<lparr>Contents = Some [], IsTruncated = Some False\<rparr>, example_store) \<and>
   optional_list (Contents \<lparr>Contents = Some [], IsTruncated = Some False\<rparr>) = [] \<and>
   deleteObjects (reference_env 2) \<lparr>DeleteObjectsRequest.Bucket = ''isky'', Delete = \<lparr>Objects = []\<rparr>\<rparr>
       example_store =
     (Inr \<lparr>Deleted = Some []\<rparr>, example_store) \<and>
   DeleteObjectAsync (reference_env 2) ''isky'' ''wm/none'' example_world =
     Some (Inr (),
       example_world
         \<lparr>calls :=
            [ListObjectsV2Call \<lparr>ListObjectsV2Request.Bucket = ''isky'', Prefix = ''wm/none''\<rparr>
               (Inr \<lparr>Contents = Some [], IsTruncated = Some False\<rparr>),
             DeleteObjectsCall \<lparr>DeleteObjectsRequest.Bucket = ''isky'', Delete = \<lparr>Objects = []\<rparr>\<rparr>
               (Inr \<lparr>Deleted = Some []\<rparr>)]\<rparr>)"
proof -
  have l: "listObjectsV2 (reference_env 2) \<lparr>ListObjectsV2Request.Bucket = ''isky'', Prefix = ''wm/none''\<rparr>
       (remote example_world) =
     (Inr \<lparr>Contents = Some [], IsTruncated = Some False\<rparr>, example_store)"
    by (simp add: env_simps)
  have c: "optional_list (Contents \<lparr>Contents = Some [], IsTruncated = Some False\<rparr>) = []"
    by (simp add: optional_list_def)
  have d: "deleteObjects (reference_env 2) \<lparr>DeleteObjectsRequest.Bucket = ''isky'', Delete = \<lparr>Objects = []\<rparr>\<rparr>
       example_store = (Inr \<lparr>Deleted = Some []\<rparr>, example_store)"
    by (simp add: env_simps)
  from empty_listing_still_deletes [OF l c d] l c d show ?thesis
    by (simp add: example_world_def start_def)
qed

subsection \<open>Results of the single round trips\<close>




subsection \<open>The requests of a folder upload\<close>

lemma upload_each_sends:
  assumes "\<forall>name \<in> set names. entry_readable env folder (disk w) name"
  shows "upload_each env b folder to cb names w =
     (Inr (), w\<lparr>calls := calls w @
        expected_uploads env b folder to (\<lambda>name. eachFileCallback cb) (disk w)
          (filter (\<lambda>name. \<not> entry_is_directory env folder (disk w) name) names)\<rparr>)"
  using assms
proof (induction names arbitrary: w)
  case Nil
  then show ?case by (simp add: expected_uploads_def)
next
  case (Cons name names)
  from Cons.prems have rest: "\<forall>n \<in> set names. entry_readable env folder (disk w) n"
    and this_one: "entry_readable env folder (disk w) name" by simp_all
  obtain isDirectory where d: "DirectoryExisted env (path_join env folder name) (disk w) = Inr isDirectory"
    using this_one by (auto simp: entry_readable_def split: sum.splits)
  show ?case
  proof (cases isDirectory)
    case True
    with d Cons.IH [OF rest] show ?thesis
      by (simp add: entry_is_directory_def)
  next
    case False
    with d this_one obtain bs where r: "readFile env (path_join env folder name) (disk w) = Inr bs"
      by (cases "readFile env (path_join env folder name) (disk w)") (auto simp: entry_readable_def)
    let ?w = "s3_putObject_callback
                \<lparr>PutObjectRequest.Bucket = b, Key = to @ ''/'' @ name, Body = bs, ACL = None\<rparr>
                (eachFileCallback cb) w"
    from rest have "\<forall>n \<in> set names. entry_readable env folder (disk ?w) n"
      by (simp add: s3_putObject_callback_def)
    from Cons.IH [OF this] False d r show ?thesis
      by (simp add: entry_is_directory_def expected_uploads_def entry_body_def
          s3_putObject_callback_def)
  qed
qed

lemma upload_each_v2_sends:
  assumes "\<forall>name \<in> set names. entry_readable env folder (disk w) name"
  shows "upload_each_v2 env b folder to names (w :: ('s, 'f, 'c) world) =
     (Inr (), w\<lparr>calls := calls w @
        expected_uploads env b folder to progressCallback (disk w)
          (filter (\<lambda>name. \<not> entry_is_directory env folder (disk w) name \<and> suffix ''.png'' name)
             names)\<rparr>)"
  using assms
proof (induction names arbitrary: w)
  case Nil
  then show ?case by (simp add: expected_uploads_def)
next
  case (Cons name names)
  from Cons.prems have rest: "\<forall>n \<in> set names. entry_readable env folder (disk w) n"
    and this_one: "entry_readable env folder (disk w) name" by simp_all
  obtain isDirectory where d: "DirectoryExisted env (path_join env folder name) (disk w) = Inr isDirectory"
    using this_one by (auto simp: entry_readable_def split: sum.splits)
  show ?case
  proof (cases "isDirectory \<or> \<not> suffix ''.png'' name")
    case True
    with d Cons.IH [OF rest] show ?thesis
      by (auto simp: entry_is_directory_def)
  next
    case False
    with d this_one obtain bs where r: "readFile env (path_join env folder name) (disk w) = Inr bs"
      by (cases "readFile env (path_join env folder name) (disk w)") (auto simp: entry_readable_def)
    let ?w = "s3_putObject_callback
                \<lparr>PutObjectRequest.Bucket = b, Key = to @ ''/'' @ name, Body = bs, ACL = None\<rparr>
                (progressCallback name) w"
    from rest have "\<forall>n \<in> set names. entry_readable env folder (disk ?w) n"
      by (simp add: s3_putObject_callback_def)
    from Cons.IH [OF this] False d r show ?thesis
      by (simp add: entry_is_directory_def expected_uploads_def entry_body_def
          s3_putObject_callback_def)
  qed
qed

lemma settle_callbacks: "map fst (fst (settle env reqs s)) = map snd reqs"
proof (induction reqs arbitrary: s)
  case Nil
  then show ?case by simp
next
  case (Cons sent reqs)
  obtain req cb where sent: "sent = (req, cb)" by (cases sent)
  obtain r s1 where p: "putObject env req s = (r, s1)" by (cases "putObject env req s")
  obtain fired s2 where f: "settle env reqs s1 = (fired, s2)" by (cases "settle env reqs s1")
  from Cons.IH [of s1] f have "map fst fired = map snd reqs" by simp
  with sent p f show ?case by simp
qed

lemma sent_expected:
  "sent_requests (expected_uploads env b folder to cbk d names) =
     map (\<lambda>name. (\<lparr>PutObjectRequest.Bucket = b, Key = to @ ''/'' @ name,
                     Body = entry_body env folder d name, ACL = None\<rparr>, cbk name)) names"
  by (induction names) (simp_all add: expected_uploads_def)

lemma data_entries:
  "readdir (reference_env 1000) ''data'' (disk example_world) = Inr [''clip.mp4'', ''thumbs'', ''logo.png'']"
  by (simp add: reference_env_def tree_readdir_def segments_def example_world_def start_def
      example_disk_def)

lemmas tree_simps = reference_env_def tree_DirectoryExisted_def tree_readFile_def
  tree_FileExisted_def posix_join_def normalize_def segments_def example_world_def start_def
  example_disk_def

lemma data_readable:
  "\<forall>name \<in> set [''clip.mp4'', ''thumbs'', ''logo.png''].
     entry_readable (reference_env 1000) ''data'' (disk example_world) name"
  by (simp add: entry_readable_def tree_simps)

lemma data_files:
  "filter (\<lambda>name. \<not> entry_is_directory (reference_env 1000) ''data'' (disk example_world) name)
     [''clip.mp4'', ''thumbs'', ''logo.png''] = [''clip.mp4'', ''logo.png'']"
  by (simp add: entry_is_directory_def tree_simps)

lemma data_bodies:
  "entry_body (reference_env 1000) ''data'' (disk example_world) ''clip.mp4'' = ''movie''"
  "entry_body (reference_env 1000) ''data'' (disk example_world) ''logo.png'' = ''image''"
  by (simp_all add: entry_body_def tree_simps)

text \<open>
  C5, as amended.  Take a folder that passes the two tests (at least one entry, at most
  10000) and whose entries can all be examined and, unless directories, read.
  \<^verbatim>\<open>UploadFolderAsync\<close> and \<^verbatim>\<open>PutFolderAsync\<close> then return after sending, in the order of the
  listing, exactly one upload for each entry that is not a directory: key
  \<^verbatim>\<open>prefix/name\<close>, the bytes of the file, and the caller's callback.  \<^verbatim>\<open>UploadFolder\<close> of
  version 2 sends one only for the entries that are not directories and whose name ends
  in \<^verbatim>\<open>.png\<close>, each with its own progress callback.  When the requests of
  \<^verbatim>\<open>UploadFolderAsync\<close> settle, the caller's callback is fired once for each of them.
\<close>

theorem folder_upload_requests:
  assumes "readdir env folder (disk w) = Inr fileNames"
    and "fileNames \<noteq> []"
    and "length fileNames \<le> 10000"
    and "\<forall>name \<in> set fileNames. entry_readable env folder (disk w) name"
  shows "UploadFolderAsync env b folder to cb w =
           (Inr (), w\<lparr>calls := calls w @
              expected_uploads env b folder to (\<lambda>name. eachFileCallback cb) (disk w)
                (filter (\<lambda>name. \<not> entry_is_directory env folder (disk w) name) fileNames)\<rparr>) \<and>
         PutFolderAsync env b folder to cb w =
           (Inr (), w\<lparr>calls := calls w @
              expected_uploads env b folder to (\<lambda>name. eachFileCallback cb) (disk w)
                (filter (\<lambda>name. \<not> entry_is_directory env folder (disk w) name) fileNames)\<rparr>) \<and>
         UploadFolder_v2 env b folder to w =
           (Inr (), w\<lparr>calls := calls w @
              expected_uploads env b folder to progressCallback (disk w)
                (filter (\<lambda>name. \<not> entry_is_directory env folder (disk w) name \<and>
                                 suffix ''.png'' name) fileNames)\<rparr>) \<and>
         map fst (fst (settle env
             (sent_requests
                (expected_uploads env b folder to (\<lambda>name. eachFileCallback cb) (disk w)
                   (filter (\<lambda>name. \<not> entry_is_directory env folder (disk w) name) fileNames))) s)) =
           replicate
             (length (filter (\<lambda>name. \<not> entry_is_directory env folder (disk w) name) fileNames))
             (eachFileCallback cb)"
proof (intro conjI)
  from assms(2,3) have len: "length fileNames \<noteq> 0" "\<not> length fileNames > 10000" by simp_all
  show "UploadFolderAsync env b folder to cb w =
           (Inr (), w\<lparr>calls := calls w @
              expected_uploads env b folder to (\<lambda>name. eachFileCallback cb) (disk w)
                (filter (\<lambda>name. \<not> entry_is_directory env folder (disk w) name) fileNames)\<rparr>)"
    using assms(1) len upload_each_sends [OF assms(4)]
    by (simp add: UploadFolderAsync_def)
  show "PutFolderAsync env b folder to cb w =
           (Inr (), w\<lparr>calls := calls w @
              expected_uploads env b folder to (\<lambda>name. eachFileCallback cb) (disk w)
                (filter (\<lambda>name. \<not> entry_is_directory env folder (disk w) name) fileNames)\<rparr>)"
    using assms(1) len upload_each_sends [OF assms(4)]
    by (simp add: PutFolderAsync_def)
  show "UploadFolder_v2 env b folder to w =
           (Inr (), w\<lparr>calls := calls w @
              expected_uploads env b folder to progressCallback (disk w)
                (filter (\<lambda>name. \<not> entry_is_directory env folder (disk w) name \<and>
                                 suffix ''.png'' name) fileNames)\<rparr>)"
    using assms(1) len upload_each_v2_sends [OF assms(4)]
    by (simp add: UploadFolder_v2_def)
  show "map fst (fst (settle env
             (sent_requests
                (expected_uploads env b folder to (\<lambda>name. eachFileCallback cb) (disk w)
                   (filter (\<lambda>name. \<not> entry_is_directory env folder (disk w) name) fileNames))) s)) =
           replicate
             (length (filter (\<lambda>name. \<not> entry_is_directory env folder (disk w) name) fileNames))
             (eachFileCallback cb)"
    by (simp add: settle_callbacks sent_expected comp_def map_replicate_const)
qed

theorem folder_upload_requests_witness:
  "readdir (reference_env 1000) ''data'' (disk example_world) = Inr [''clip.mp4'', ''thumbs'', ''logo.png''] \<and>
   [''clip.mp4'', ''thumbs'', ''logo.png''] \<noteq> [] \<and>
   length [''clip.mp4'', ''thumbs'', ''logo.png''] \<le> 10000 \<and>
   entry_readable (reference_env 1000) ''data'' (disk example_world) ''clip.mp4'' \<and>
   entry_readable (reference_env 1000) ''data'' (disk example_world) ''thumbs'' \<and>
   entry_readable (reference_env 1000) ''data'' (disk example_world) ''logo.png'' \<and>
   UploadFolderAsync (reference_env 1000) ''staging'' ''data'' ''upload/today'' 7 example_world =
     (Inr (), example_world\<lparr>calls :=
        [PutObjectSent \<lparr>PutObjectRequest.Bucket = ''staging'', Key = ''upload/today/clip.mp4'',
                        Body = ''movie'', ACL = None\<rparr> (eachFileCallback 7),
         PutObjectSent \<lparr>PutObjectRequest.Bucket = ''staging'', Key = ''upload/today/logo.png'',
                        Body = ''image'', ACL = None\<rparr> (eachFileCallback 7)]\<rparr>) \<and>
   PutFolderAsync (reference_env 1000) ''staging'' ''data'' ''upload/today'' 7 example_world =
     (Inr (), example_world\<lparr>calls :=
        [PutObjectSent \<lparr>PutObjectRequest.Bucket = ''staging'', Key = ''upload/today/clip.mp4'',
                        Body = ''movie'', ACL = None\<rparr> (eachFileCallback 7),
         PutObjectSent \<lparr>PutObjectRequest.Bucket = ''staging'', Key = ''upload/today/logo.png'',
                        Body = ''image'', ACL = None\<rparr> (eachFileCallback 7)]\<rparr>)"
proof -
  have ne: "[''clip.mp4'', ''thumbs'', ''logo.png''] \<noteq> []" by simp
  have le: "length [''clip.mp4'', ''thumbs'', ''logo.png''] \<le> 10000" by simp
  have start_calls: "calls example_world = []" by (simp add: example_world_def start_def)
  note inst = folder_upload_requests [OF data_entries ne le data_readable,
      of "''staging''" "''upload/today''" 7, unfolded data_files]
  from inst have
    "UploadFolderAsync (reference_env 1000) ''staging'' ''data'' ''upload/today'' 7 example_world =
       (Inr (), example_world\<lparr>calls := calls example_world @
          expected_uploads (reference_env 1000) ''staging'' ''data'' ''upload/today''
            (\<lambda>name. eachFileCallback 7) (disk example_world) [''clip.mp4'', ''logo.png'']\<rparr>)"
    "PutFolderAsync (reference_env 1000) ''staging'' ''data'' ''upload/today'' 7 example_world =
       (Inr (), example_world\<lparr>calls := calls example_world @
          expected_uploads (reference_env 1000) ''staging'' ''data'' ''upload/today''
            (\<lambda>name. eachFileCallback 7) (disk example_world) [''clip.mp4'', ''logo.png'']\<rparr>)"
    by blast+
  with data_entries data_readable show ?thesis
    by (simp add: data_bodies expected_uploads_def start_calls)
qed

text \<open>
  C5, as stated, fails for \<^verbatim>\<open>UploadFolder\<close> of version 2: \<^verbatim>\<open>data/clip.mp4\<close> is a regular
  file of the folder, and the only upload sent is the one for \<^verbatim>\<open>logo.png\<close>, with the
  method's own callback.
\<close>

theorem UploadFolder_v2_skips_other_files:
  "FileExisted (reference_env 1000) ''data/clip.mp4'' (disk example_world) = Inr True \<and>
   UploadFolder_v2 (reference_env 1000) ''staging'' ''data'' ''upload/today'' example_world =
     (Inr (), example_world\<lparr>calls :=
        [PutObjectSent \<lparr>PutObjectRequest.Bucket = ''staging'', Key = ''upload/today/logo.png'',
                        Body = ''image'', ACL = None\<rparr> (progressCallback ''logo.png'')]\<rparr>)"
  by (simp add: UploadFolder_v2_def tree_readdir_def tree_simps s3_putObject_callback_def
      suffix_to_prefix)

subsection \<open>Deleting by prefix: termination and idempotence\<close>

lemma last_listing_append:
  "last_listing tr = Some r \<Longrightarrow> last_listing (pre @ tr) = Some r"
  by (induction pre) simp_all

lemma DeleteObjectAsync_returns:
  fixes m :: "'s \<Rightarrow> nat" and env :: "('s, 'f) env" and w :: "('s, 'f, 'c) world"
  assumes round: "\<And>s. I s \<Longrightarrow>
      \<exists>listed s1 deleted s2.
        listObjectsV2 env \<lparr>ListObjectsV2Request.Bucket = b, Prefix = p\<rparr> s = (Inr listed, s1) \<and>
        deleteObjects env (params_delete b listed) s1 = (Inr deleted, s2) \<and>
        I s2 \<and> (if IsTruncated listed = Some True then m s2 < m s else Q s2)"
    and inv: "I (remote w)"
  shows "\<exists>w1 tr listed.
           DeleteObjectAsync env b p w = Some (Inr (), w1) \<and> I (remote w1) \<and> Q (remote w1) \<and>
           calls w1 = calls w @ tr \<and>
           last_listing tr = Some (Inr listed) \<and> IsTruncated listed \<noteq> Some True"
  using inv
proof (induction "m (remote w)" arbitrary: w rule: less_induct)
  case less
  from round [OF less.prems] obtain listed s1 deleted s2 where
    l: "listObjectsV2 env \<lparr>ListObjectsV2Request.Bucket = b, Prefix = p\<rparr> (remote w) = (Inr listed, s1)"
    and d: "deleteObjects env (params_delete b listed) s1 = (Inr deleted, s2)"
    and i2: "I s2"
    and step: "if IsTruncated listed = Some True then m s2 < m (remote w) else Q s2"
    by blast
  let ?page = "[ListObjectsV2Call \<lparr>ListObjectsV2Request.Bucket = b, Prefix = p\<rparr> (Inr listed),
                DeleteObjectsCall (params_delete b listed) (Inr deleted)]"
  let ?w2 = "w\<lparr>remote := s2, calls := calls w @ ?page\<rparr>"
  note unfold = DeleteObjectAsync_listed [OF l d]
  show ?case
  proof (cases "IsTruncated listed = Some True")
    case True
    with step have "m (remote ?w2) < m (remote w)" by simp
    moreover from i2 have "I (remote ?w2)" by simp
    ultimately obtain w1 tr listed' where
      run: "DeleteObjectAsync env b p ?w2 = Some (Inr (), w1)" "I (remote w1)" "Q (remote w1)"
      and tr: "calls w1 = calls ?w2 @ tr" "last_listing tr = Some (Inr listed')"
        "IsTruncated listed' \<noteq> Some True"
      using less.hyps [of ?w2] by blast
    from unfold True run(1) have "DeleteObjectAsync env b p w = Some (Inr (), w1)" by simp
    moreover from tr(1) have "calls w1 = calls w @ (?page @ tr)" by simp
    moreover from tr(2) have "last_listing (?page @ tr) = Some (Inr listed')"
      by (rule last_listing_append)
    ultimately show ?thesis using run(2,3) tr(3) by blast
  next
    case False
    with unfold have "DeleteObjectAsync env b p w = Some (Inr (), ?w2)" by simp
    moreover from i2 have "I (remote ?w2)" by simp
    moreover from step False have "Q (remote ?w2)" by simp
    moreover have "calls ?w2 = calls w @ ?page" by simp
    moreover have "last_listing ?page = Some (Inr listed)" by simp
    ultimately show ?thesis using False by blast
  qed
qed


lemma matching_bucket:
  "map_of s b = Some objs \<Longrightarrow> matching s b p = filter (prefix p) (map fst objs)"
  by (simp add: matching_def)

lemma matching_after_delete:
  assumes "map_of s b = Some objs"
  shows "matching (AList.update b (filter (\<lambda>obj. fst obj \<notin> set ks) objs) s) b p =
           filter (\<lambda>k. k \<notin> set ks) (matching s b p)"
proof -
  have "filter (prefix p) (map fst (filter (\<lambda>obj. fst obj \<notin> set ks) objs)) =
          filter (\<lambda>k. k \<notin> set ks) (filter (prefix p) (map fst objs))"
    by (induction objs) auto
  with assms show ?thesis
    by (simp add: matching_def update_conv')
qed

lemma reference_round:
  assumes pos: "0 < maxKeys" and bucket: "map_of s b \<noteq> None"
  shows "\<exists>listed s1 deleted s2.
           listObjectsV2 (reference_env maxKeys)
             \<lparr>ListObjectsV2Request.Bucket = b, Prefix = p\<rparr> s = (Inr listed, s1) \<and>
           deleteObjects (reference_env maxKeys) (params_delete b listed) s1 = (Inr deleted, s2) \<and>
           map_of s2 b \<noteq> None \<and>
           (if IsTruncated listed = Some True
            then length (matching s2 b p) < length (matching s b p)
            else matching s2 b p = [])"
proof -
  from bucket obtain objs where objs: "map_of s b = Some objs" by blast
  let ?ks = "matching s b p"
  let ?page = "take maxKeys ?ks"
  let ?listed = "\<lparr>Contents = Some (map (\<lambda>k. \<lparr>Object.Key = k\<rparr>) ?page),
                  IsTruncated = Some (maxKeys < length ?ks)\<rparr>"
  let ?s2 = "AList.update b (filter (\<lambda>obj. fst obj \<notin> set ?page) objs) s"
  have l: "listObjectsV2 (reference_env maxKeys)
             \<lparr>ListObjectsV2Request.Bucket = b, Prefix = p\<rparr> s = (Inr ?listed, s)"
    using objs by (simp add: reference_env_def store_listObjectsV2_def matching_bucket)
  have keys: "map ObjectIdentifier.Key (Objects (Delete (params_delete b ?listed))) = ?page"
    by (simp add: params_delete_def optional_list_def comp_def)
  have d: "deleteObjects (reference_env maxKeys) (params_delete b ?listed) s =
             (Inr \<lparr>Deleted = Some (Objects (Delete (params_delete b ?listed)))\<rparr>, ?s2)"
    using objs keys
    by (simp add: reference_env_def store_deleteObjects_def) (simp add: params_delete_def)
  have b2: "map_of ?s2 b \<noteq> None" by (simp add: update_conv')
  have rest: "matching ?s2 b p = filter (\<lambda>k. k \<notin> set ?page) ?ks"
    by (rule matching_after_delete [OF objs])
  have "if IsTruncated ?listed = Some True
        then length (matching ?s2 b p) < length ?ks else matching ?s2 b p = []"
  proof (cases "maxKeys < length ?ks")
    case True
    then have ne: "?ks \<noteq> []" by auto
    with pos have "hd ?ks \<in> set ?page" by (cases ?ks) (auto simp: take_Suc_conv_app_nth neq0_conv gr0_conv_Suc)
    moreover from ne have "hd ?ks \<in> set ?ks" by simp
    ultimately have "length (filter (\<lambda>k. k \<notin> set ?page) ?ks) < length ?ks"
      by (intro length_filter_less [of "hd ?ks"]) simp_all
    with True rest show ?thesis by simp
  next
    case False
    then have "?page = ?ks" by simp
    then have "filter (\<lambda>k. k \<notin> set ?page) ?ks = []" by simp
    with False rest show ?thesis by simp
  qed
  with l d b2 show ?thesis by blast
qed

text \<open>
  C8.  Let \<open>I\<close> be a property of the store that holds when \<^verbatim>\<open>DeleteObjectAsync\<close> is called
  (for instance: the bucket exists) and \<open>m\<close> a count of what remains to delete (for
  instance: the number of objects that match the prefix), such that \<open>pages_shrink\<close> holds:
  each batch delete takes the listed objects out of what remains.  Then the call returns,
  without error: its requests form the pattern \<open>paged\<close>, and the last listing it made is one
  that was not marked truncated.
\<close>

theorem DeleteObjectAsync_terminates:
  fixes m :: "'s \<Rightarrow> nat" and env :: "('s, 'f) env" and w :: "('s, 'f, 'c) world"
  assumes "I (remote w)" and "pages_shrink env b p I m"
  shows "\<exists>w1 tr listed.
           DeleteObjectAsync env b p w = Some (Inr (), w1) \<and>
           calls w1 = calls w @ tr \<and> paged b p tr \<and>
           last_listing tr = Some (Inr listed) \<and> IsTruncated listed \<noteq> Some True"
proof -
  have round: "\<exists>listed s1 deleted s2.
        listObjectsV2 env \<lparr>ListObjectsV2Request.Bucket = b, Prefix = p\<rparr> s = (Inr listed, s1) \<and>
        deleteObjects env (params_delete b listed) s1 = (Inr deleted, s2) \<and>
        I s2 \<and> (if IsTruncated listed = Some True then m s2 < m s else True)" if "I s" for s
    using assms(2) that unfolding pages_shrink_def by (auto split: if_splits) blast
  from DeleteObjectAsync_returns [where Q = "\<lambda>s. True" and I = I and m = m, OF round assms(1)]
  obtain w1 tr listed where
    run: "DeleteObjectAsync env b p w = Some (Inr (), w1)"
    and tr: "calls w1 = calls w @ tr" "last_listing tr = Some (Inr listed)"
      "IsTruncated listed \<noteq> Some True"
    by blast
  from DeleteObjectAsync_trace [OF run] tr(1) have "paged b p tr" by auto
  with run tr show ?thesis by blast
qed

theorem DeleteObjectAsync_terminates_witness:
  "map_of (remote example_world) ''isky'' \<noteq> None \<and>
   pages_shrink (reference_env 2) ''isky'' ''wm/test'' (\<lambda>s. map_of s ''isky'' \<noteq> None)
     (\<lambda>s. length (matching s ''isky'' ''wm/test'')) \<and>
   DeleteObjectAsync (reference_env 2) ''isky'' ''wm/test'' example_world =
     Some (Inr (), example_deleted) \<and>
   (\<exists>listed. last_listing (calls example_deleted) = Some (Inr listed) \<and>
      IsTruncated listed \<noteq> Some True)"
proof -
  have i: "map_of (remote example_world) ''isky'' \<noteq> None"
    by (simp add: example_world_def example_store_def start_def)
  have r: "pages_shrink (reference_env 2) ''isky'' ''wm/test'' (\<lambda>s. map_of s ''isky'' \<noteq> None)
     (\<lambda>s. length (matching s ''isky'' ''wm/test''))"
    unfolding pages_shrink_def
  proof (intro allI impI)
    fix s :: store
    assume "map_of s ''isky'' \<noteq> None"
    from reference_round [of 2 s "''isky''" "''wm/test''", OF _ this]
    obtain listed s1 deleted s2 where
      "listObjectsV2 (reference_env 2)
          \<lparr>ListObjectsV2Request.Bucket = ''isky'', Prefix = ''wm/test''\<rparr> s = (Inr listed, s1)"
      "deleteObjects (reference_env 2) (params_delete ''isky'' listed) s1 = (Inr deleted, s2)"
      "map_of s2 ''isky'' \<noteq> None"
      "if IsTruncated listed = Some True
       then length (matching s2 ''isky'' ''wm/test'') < length (matching s ''isky'' ''wm/test'')
       else matching s2 ''isky'' ''wm/test'' = []"
      by auto
    then show "\<exists>listed s1 deleted s2.
        listObjectsV2 (reference_env 2)
          \<lparr>ListObjectsV2Request.Bucket = ''isky'', Prefix = ''wm/test''\<rparr> s = (Inr listed, s1) \<and>
        deleteObjects (reference_env 2) (params_delete ''isky'' listed) s1 = (Inr deleted, s2) \<and>
        map_of s2 ''isky'' \<noteq> None \<and>
        (IsTruncated listed = Some True \<longrightarrow>
           length (matching s2 ''isky'' ''wm/test'') < length (matching s ''isky'' ''wm/test''))"
      by (intro exI [of _ listed] exI [of _ s1] exI [of _ deleted] exI [of _ s2]) simp
  qed
  from DeleteObjectAsync_terminates [OF i r]
  obtain w1 tr listed where
    run: "DeleteObjectAsync (reference_env 2) ''isky'' ''wm/test'' example_world = Some (Inr (), w1)"
    and tr: "calls w1 = calls example_world @ tr" "last_listing tr = Some (Inr listed)"
      "IsTruncated listed \<noteq> Some True"
    by blast
  from run run1 have "w1 = example_deleted" by simp
  moreover have "calls example_world = []" by (simp add: example_world_def start_def)
  ultimately have "last_listing (calls example_deleted) = Some (Inr listed)"
    using tr(1,2) by simp
  with tr(3) i r run1 show ?thesis by blast
qed

lemma reference_no_bucket:
  assumes "map_of (remote w) b = None"
  shows "DeleteObjectAsync (reference_env maxKeys) b p w =
     Some (Inl (AWSError ''NoSuchBucket''),
           w\<lparr>calls := calls w @
             [ListObjectsV2Call \<lparr>ListObjectsV2Request.Bucket = b, Prefix = p\<rparr>
                (Inl (AWSError ''NoSuchBucket''))]\<rparr>)"
  using assms
  by (subst DeleteObjectAsync.simps)
     (simp add: s3_listObjectsV2_def reference_env_def store_listObjectsV2_def)

lemma reference_nothing_left:
  assumes objs: "map_of (remote w) b = Some objs" and none: "matching (remote w) b p = []"
  shows "DeleteObjectAsync (reference_env maxKeys) b p w =
     Some (Inr (),
           w\<lparr>calls := calls w @
             [ListObjectsV2Call \<lparr>ListObjectsV2Request.Bucket = b, Prefix = p\<rparr>
                (Inr \<lparr>Contents = Some [], IsTruncated = Some False\<rparr>),
              DeleteObjectsCall \<lparr>DeleteObjectsRequest.Bucket = b, Delete = \<lparr>Objects = []\<rparr>\<rparr>
                (Inr \<lparr>Deleted = Some []\<rparr>)]\<rparr>)"
proof -
  let ?listed = "\<lparr>Contents = Some [], IsTruncated = Some False\<rparr>"
  from none objs have ks: "filter (prefix p) (map fst objs) = []"
    by (simp add: matching_def)
  have l: "listObjectsV2 (reference_env maxKeys)
             \<lparr>ListObjectsV2Request.Bucket = b, Prefix = p\<rparr> (remote w) = (Inr ?listed, remote w)"
    using objs ks by (simp add: reference_env_def store_listObjectsV2_def)
  have pd: "params_delete b ?listed = \<lparr>DeleteObjectsRequest.Bucket = b, Delete = \<lparr>Objects = []\<rparr>\<rparr>"
    by (simp add: params_delete_def optional_list_def)
  have d: "deleteObjects (reference_env maxKeys) (params_delete b ?listed) (remote w) =
             (Inr \<lparr>Deleted = Some []\<rparr>, remote w)"
    using objs by (simp add: pd reference_env_def store_deleteObjects_def update_triv)
  from DeleteObjectAsync_listed [OF l d] show ?thesis by (simp add: pd)
qed

lemma run3: "DeleteObjectAsync (reference_env 2) ''isky'' ''wm/test'' example_deleted =
    Some (Inr (), example_deleted_again)"
  by (simp add: DeleteObjectAsync.simps env_simps example_deleted_def example_deleted_again_def)

text \<open>
  C7.  On the reference store, with pages of at least one key, for every bucket and
  prefix: \<^verbatim>\<open>DeleteObjectAsync\<close> returns and leaves no object matching the prefix; called
  again at once it returns, leaves no object matching the prefix, leaves the store as it
  found it, and names no key in any batch delete it sends.
\<close>

theorem DeleteObjectAsync_idempotent:
  fixes w :: "(store, node, 'c) world"
  assumes "0 < maxKeys"
  shows "\<exists>r1 w1 r2 w2.
           DeleteObjectAsync (reference_env maxKeys) b p w = Some (r1, w1) \<and>
           matching (remote w1) b p = [] \<and>
           DeleteObjectAsync (reference_env maxKeys) b p w1 = Some (r2, w2) \<and>
           matching (remote w2) b p = [] \<and>
           remote w2 = remote w1 \<and>
           deleted_keys (drop (length (calls w1)) (calls w2)) = []"
proof (cases "map_of (remote w) b")
  case None
  let ?fail = "[ListObjectsV2Call \<lparr>ListObjectsV2Request.Bucket = b, Prefix = p\<rparr>
                  (Inl (AWSError ''NoSuchBucket'')) :: 'c s3_call]"
  let ?w1 = "w\<lparr>calls := calls w @ ?fail\<rparr>"
  let ?w2 = "?w1\<lparr>calls := calls ?w1 @ ?fail\<rparr>"
  from None have first: "DeleteObjectAsync (reference_env maxKeys) b p w =
      Some (Inl (AWSError ''NoSuchBucket''), ?w1)"
    by (rule reference_no_bucket)
  from None have "map_of (remote ?w1) b = None" by simp
  then have second: "DeleteObjectAsync (reference_env maxKeys) b p ?w1 =
      Some (Inl (AWSError ''NoSuchBucket''), ?w2)"
    by (rule reference_no_bucket)
  from None have "matching (remote ?w1) b p = []" "matching (remote ?w2) b p = []"
    by (simp_all add: matching_def)
  moreover have "remote ?w2 = remote ?w1" by simp
  moreover have "deleted_keys (drop (length (calls ?w1)) (calls ?w2)) = []" by simp
  ultimately show ?thesis using first second by blast
next
  case (Some objs)
  have round: "\<exists>listed s1 deleted s2.
        listObjectsV2 (reference_env maxKeys)
          \<lparr>ListObjectsV2Request.Bucket = b, Prefix = p\<rparr> s = (Inr listed, s1) \<and>
        deleteObjects (reference_env maxKeys) (params_delete b listed) s1 = (Inr deleted, s2) \<and>
        map_of s2 b \<noteq> None \<and>
        (if IsTruncated listed = Some True
         then length (matching s2 b p) < length (matching s b p)
         else matching s2 b p = [])" if "map_of s b \<noteq> None" for s
    using reference_round [OF assms that] .
  from Some have "map_of (remote w) b \<noteq> None" by simp
  from DeleteObjectAsync_returns
    [where I = "\<lambda>s. map_of s b \<noteq> None" and m = "\<lambda>s. length (matching s b p)"
       and Q = "\<lambda>s. matching s b p = []", OF round this]
  obtain w1 where first: "DeleteObjectAsync (reference_env maxKeys) b p w = Some (Inr (), w1)"
    and b1: "map_of (remote w1) b \<noteq> None" and none: "matching (remote w1) b p = []"
    by blast
  from b1 obtain objs1 where objs1: "map_of (remote w1) b = Some objs1" by blast
  let ?page = "[ListObjectsV2Call \<lparr>ListObjectsV2Request.Bucket = b, Prefix = p\<rparr>
                  (Inr \<lparr>Contents = Some [], IsTruncated = Some False\<rparr>),
                DeleteObjectsCall \<lparr>DeleteObjectsRequest.Bucket = b, Delete = \<lparr>Objects = []\<rparr>\<rparr>
                  (Inr \<lparr>Deleted = Some []\<rparr>) :: 'c s3_call]"
  let ?w2 = "w1\<lparr>calls := calls w1 @ ?page\<rparr>"
  have second: "DeleteObjectAsync (reference_env maxKeys) b p w1 = Some (Inr (), ?w2)"
    by (rule reference_nothing_left [OF objs1 none])
  have "remote ?w2 = remote w1" by simp
  moreover from none have "matching (remote ?w2) b p = []" by simp
  moreover have "deleted_keys (drop (length (calls w1)) (calls ?w2)) = []" by simp
  ultimately show ?thesis using first second none by blast
qed

theorem DeleteObjectAsync_idempotent_witness:
  "(0::nat) < 2 \<and>
   DeleteObjectAsync (reference_env 2) ''isky'' ''wm/test'' example_world =
     Some (Inr (), example_deleted) \<and>
   matching (remote example_deleted) ''isky'' ''wm/test'' = [] \<and>
   DeleteObjectAsync (reference_env 2) ''isky'' ''wm/test'' example_deleted =
     Some (Inr (), example_deleted_again) \<and>
   matching (remote example_deleted_again) ''isky'' ''wm/test'' = [] \<and>
   remote example_deleted_again = remote example_deleted \<and>
   deleted_keys (drop (length (calls example_deleted)) (calls example_deleted_again)) = []"
proof -
  have pos: "(0::nat) < 2" by simp
  from DeleteObjectAsync_idempotent [OF pos, of "''isky''" "''wm/test''" example_world]
  obtain r1 w1 r2 w2 where
    a: "DeleteObjectAsync (reference_env 2) ''isky'' ''wm/test'' example_world = Some (r1, w1)"
    and b: "matching (remote w1) ''isky'' ''wm/test'' = []"
    and c: "DeleteObjectAsync (reference_env 2) ''isky'' ''wm/test'' w1 = Some (r2, w2)"
    and d: "matching (remote w2) ''isky'' ''wm/test'' = []" "remote w2 = remote w1"
      "deleted_keys (drop (length (calls w1)) (calls w2)) = []"
    by blast
  from a run1 have w1: "w1 = example_deleted" by simp
  with c run3 have w2: "w2 = example_deleted_again" by simp
  from b d pos run1 run3 show ?thesis unfolding w1 w2 by simp
qed

subsection \<open>The round trip of upload and download\<close>

lemmas round_trip_simps = uploaded_world_def downloaded_world_def uploaded_flat_world_def
  downloaded_flat_world_def UploadFileAsync_v3_def UploadFileAsync_v3_try_def
  DownloadObjectsAsync_def s3_upload_def s3_getObject_def s3_listObjectsV2_def
  uploadParams_def truthy_def optional_list_def
  reference_env_def store_upload_def store_put_def store_listObjectsV2_def store_getObject_def
  tree_FileExisted_def tree_DirectoryExisted_def tree_readFile_def tree_MkDirs_def
  tree_createWriteStream_def posix_join_def normalize_def segments_def
  example_world_def example_store_def example_disk_def start_def

text \<open>
  C6, at a key with a path separator.  \<^verbatim>\<open>data/clip.mp4\<close> is uploaded to the key
  \<^verbatim>\<open>upload/today/movie.mp4\<close>, and the prefix \<^verbatim>\<open>upload/today\<close> is downloaded into \<^verbatim>\<open>out\<close>.
  The download creates the directory \<^verbatim>\<open>out\<close> and no other; opening
  \<^verbatim>\<open>out/upload/today/movie.mp4\<close> for writing fails with \<^verbatim>\<open>ENOENT\<close>, which nothing catches,
  and there is no file at the joined path afterwards.
\<close>

theorem download_loses_nested_key:
  "fst (UploadFileAsync_v3 (reference_env 1000) ''staging'' ''data/clip.mp4''
          ''upload/today/movie.mp4'' None example_world) =
     Inr \<lparr>data = Some \<lparr>Location = ''staging/upload/today/movie.mp4''\<rparr>, err = None\<rparr> \<and>
   fst (DownloadObjectsAsync (reference_env 1000) ''staging'' ''out'' ''upload/today''
          uploaded_world) = Inr () \<and>
   posix_join ''out'' ''upload/today/movie.mp4'' = ''out/upload/today/movie.mp4'' \<and>
   readFile (reference_env 1000) ''out/upload/today/movie.mp4'' (disk downloaded_world) =
     Inl (SystemError ''ENOENT'') \<and>
   DirectoryExisted (reference_env 1000) ''out'' (disk downloaded_world) = Inr True \<and>
   DirectoryExisted (reference_env 1000) ''out/upload/today'' (disk downloaded_world) = Inr False \<and>
   uncaught downloaded_world = [SystemError ''ENOENT'']"
  by (simp add: round_trip_simps)

text \<open>With a key that has no separator, the same round trip restores the bytes.\<close>

lemma download_keeps_flat_key:
  "posix_join ''out'' ''movie.mp4'' = ''out/movie.mp4'' \<and>
   readFile (reference_env 1000) ''out/movie.mp4'' (disk downloaded_flat_world) = Inr ''movie'' \<and>
   uncaught downloaded_flat_world = []"
  by (simp add: round_trip_simps)

end
